theory Spec2Isabelle
  imports Main
begin

section \<open>Values of the configuration document\<close>

text \<open>
  The reconciler (\<^verbatim>\<open>scripts/sync-runtime-config.mjs\<close>) works on the value that
  \<^verbatim>\<open>JSON.parse\<close> returns. An object is an association list in the order of its keys
  (the order \<^verbatim>\<open>JSON.stringify\<close> prints them in); an absent property, JavaScript's
  \<^verbatim>\<open>undefined\<close>, is \<open>None\<close>. Strings are lists of 8-bit characters: the model
  covers the texts in ASCII.

  Numbers are IEEE doubles in JavaScript. The type of numbers is left open (the
  type variable \<open>'n\<close>), and the four operations of the language on numbers that the
  script reaches are the fields of a record that every function below takes as its first
  argument; the theorems hold for every such record.
\<close>

datatype 'n json =
    JNull
  | JBool bool
  | JNum 'n
  | JStr string
  | JArr "'n json list"
  | JObj "(string \<times> 'n json) list"

type_synonym 'n obj = "(string \<times> 'n json) list"

record 'n js_runtime =
  num_String :: "'n \<Rightarrow> string"           \<comment> \<open>\<^verbatim>\<open>String(x)\<close> for a number\<close>
  Number :: "string \<Rightarrow> 'n"               \<comment> \<open>\<^verbatim>\<open>Number(s)\<close> for a string\<close>
  num_strict_eq :: "'n \<Rightarrow> 'n \<Rightarrow> bool"     \<comment> \<open>\<^verbatim>\<open>x === y\<close> on numbers (false on NaN)\<close>
  num_JSON :: "'n \<Rightarrow> string"             \<comment> \<open>\<^verbatim>\<open>JSON.stringify(x)\<close>, \<^verbatim>\<open>null\<close> for NaN and the infinities\<close>

subsection \<open>Property access\<close>

text \<open>\<^verbatim>\<open>target[key]\<close> on an object: the first entry with that key.\<close>

fun get :: "string \<Rightarrow> 'n obj \<Rightarrow> 'n json option" where
  "get key [] = None"
| "get key ((k, v) # kvs) = (if k = key then Some v else get key kvs)"

text \<open>
  \<^verbatim>\<open>target[key] = value\<close>: an existing key keeps its place, a new key goes last.
\<close>

fun put :: "string \<Rightarrow> 'n json \<Rightarrow> 'n obj \<Rightarrow> 'n obj" where
  "put key value [] = [(key, value)]"
| "put key value ((k, v) # kvs) =
     (if k = key then (k, value) # kvs else (k, v) # put key value kvs)"

text \<open>The properties of the value under \<open>key\<close> when it is an object, none otherwise.\<close>

definition child :: "'n obj \<Rightarrow> string \<Rightarrow> 'n obj" where
  "child target key = (case get key target of Some (JObj kvs) \<Rightarrow> kvs | _ \<Rightarrow> [])"

text \<open>Reading along a path of keys, through objects only.\<close>

fun get_path :: "string list \<Rightarrow> 'n json \<Rightarrow> 'n json option" where
  "get_path [] v = Some v"
| "get_path (k # ks) (JObj kvs) = (case get k kvs of None \<Rightarrow> None | Some v \<Rightarrow> get_path ks v)"
| "get_path (k # ks) _ = None"

fun is_object :: "'n json option \<Rightarrow> bool" where
  "is_object (Some (JObj kvs)) = True"
| "is_object _ = False"

subsection \<open>Strings\<close>

text \<open>
  \<^verbatim>\<open>String.prototype.trim\<close> removes white space and line terminators at both ends;
  in ASCII those are tab, line feed, vertical tab, form feed, carriage return and space.
  (The white space outside ASCII that it also removes, such as the no-break space, has
  no representation here.)
\<close>

definition is_space :: "char \<Rightarrow> bool" where
  "is_space c = (c \<in> {CHR 0x09, CHR 0x0A, CHR 0x0B, CHR 0x0C, CHR 0x0D, CHR '' ''})"

definition str_trim :: "string \<Rightarrow> string" where
  "str_trim s = rev (dropWhile is_space (rev (dropWhile is_space s)))"

text \<open>
  \<^verbatim>\<open>String(value)\<close>: an array prints its elements separated by commas, \<^verbatim>\<open>null\<close>
  elements as the empty string; an object prints as \<^verbatim>\<open>[object Object]\<close>.
\<close>

fun js_String :: "'n js_runtime \<Rightarrow> 'n json \<Rightarrow> string"
  and js_join :: "'n js_runtime \<Rightarrow> 'n json list \<Rightarrow> string"
  and js_element :: "'n js_runtime \<Rightarrow> 'n json \<Rightarrow> string" where
  "js_String rt JNull = ''null''"
| "js_String rt (JBool b) = (if b then ''true'' else ''false'')"
| "js_String rt (JNum x) = num_String rt x"
| "js_String rt (JStr s) = s"
| "js_String rt (JArr xs) = js_join rt xs"
| "js_String rt (JObj kvs) = ''[object Object]''"
| "js_join rt [] = ''''"
| "js_join rt [x] = js_element rt x"
| "js_join rt (x # y # ys) = js_element rt x @ '','' @ js_join rt (y # ys)"
| "js_element rt JNull = ''''"
| "js_element rt (JArr xs) = js_join rt xs"
| "js_element rt v = js_String rt v"

text \<open>
  \<^verbatim>\<open>String(value)\<close> throws a \<^verbatim>\<open>TypeError\<close> on an object with a property
  \<^verbatim>\<open>toString\<close> of its own: the property of a parsed document is no function and hides
  \<^verbatim>\<open>Object.prototype.toString\<close>, and \<^verbatim>\<open>Object.prototype.valueOf\<close> returns the object
  itself, so the conversion finds no primitive. An array converts each of its elements
  other than \<^verbatim>\<open>null\<close> in the same way, so it throws when one of them does. In every
  other case the conversion returns, and \<^const>\<open>js_String\<close> is what it returns.
\<close>

fun String_throws :: "'n json \<Rightarrow> bool" where
  "String_throws (JObj kvs) = (get ''toString'' kvs \<noteq> None)"
| "String_throws (JArr xs) = list_ex String_throws xs"
| "String_throws _ = False"

text \<open>
  \<^verbatim>\<open>function trim(value) { return String(value ?? "").trim(); }\<close>, where it returns,
  and the values on which it throws.
\<close>

fun trim :: "'n js_runtime \<Rightarrow> 'n json option \<Rightarrow> string" where
  "trim rt None = str_trim ''''"
| "trim rt (Some JNull) = str_trim ''''"
| "trim rt (Some v) = str_trim (js_String rt v)"

fun trim_throws :: "'n json option \<Rightarrow> bool" where
  "trim_throws None = False"
| "trim_throws (Some v) = String_throws v"

text \<open>An environment variable is a string or absent.\<close>

type_synonym env = "string \<Rightarrow> string option"

definition trim_env :: "env \<Rightarrow> string \<Rightarrow> string" where
  "trim_env env name = (case env name of None \<Rightarrow> str_trim '''' | Some s \<Rightarrow> str_trim s)"

text \<open>\<^verbatim>\<open>a || b\<close> on strings: the empty string is falsy.\<close>

definition or_else :: "string \<Rightarrow> string \<Rightarrow> string" where
  "or_else a b = (if a = '''' then b else a)"

text \<open>
  \<^verbatim>\<open>a === b\<close> between two values of the document: primitives by value, objects and
  arrays by identity. Two different places of a parsed document never hold the same
  object, so the comparison of two objects or arrays is false.
\<close>

fun strict_eq :: "'n js_runtime \<Rightarrow> 'n json \<Rightarrow> 'n json option \<Rightarrow> bool" where
  "strict_eq rt JNull (Some JNull) = True"
| "strict_eq rt (JBool a) (Some (JBool b)) = (a = b)"
| "strict_eq rt (JNum x) (Some (JNum y)) = num_strict_eq rt x y"
| "strict_eq rt (JStr s) (Some (JStr t)) = (s = t)"
| "strict_eq rt _ _ = False"

subsection \<open>Serialisation\<close>

text \<open>
  \<^verbatim>\<open>JSON.stringify\<close> is used only to compare two serialisations. The text is
  represented by its syntax tree, each number by its literal; a number that prints as
  \<^verbatim>\<open>null\<close> is the same text as \<^verbatim>\<open>null\<close>.
\<close>

fun stringify :: "'n js_runtime \<Rightarrow> 'n json \<Rightarrow> string json" where
  "stringify rt JNull = JNull"
| "stringify rt (JBool b) = JBool b"
| "stringify rt (JNum x) = (if num_JSON rt x = ''null'' then JNull else JNum (num_JSON rt x))"
| "stringify rt (JStr s) = JStr s"
| "stringify rt (JArr xs) = JArr (map (stringify rt) xs)"
| "stringify rt (JObj kvs) = JObj (map (\<lambda>(k, v). (k, stringify rt v)) kvs)"

section \<open>Helpers of the script\<close>

text \<open>
  \<^verbatim>\<open>function ensureObject(target, key)\<close>: anything but a non-null, non-array object
  under \<open>key\<close> is replaced by \<^verbatim>\<open>{}\<close>. The function returns \<^verbatim>\<open>target[key]\<close>, which
  the callers then mutate in place; here the updated target is returned and the callers
  read the child with \<^const>\<open>child\<close> and store it back with \<^const>\<open>put\<close>.
\<close>

definition ensureObject :: "'n obj \<Rightarrow> string \<Rightarrow> 'n obj" where
  "ensureObject target key =
     (case get key target of Some (JObj kvs) \<Rightarrow> target | _ \<Rightarrow> put key (JObj []) target)"

text \<open>\<^verbatim>\<open>function ensureArray(target, key)\<close> (defined by the script, never called).\<close>

definition ensureArray :: "'n obj \<Rightarrow> string \<Rightarrow> 'n obj" where
  "ensureArray target key =
     (case get key target of Some (JArr xs) \<Rightarrow> target | _ \<Rightarrow> put key (JArr []) target)"

text \<open>
  \<^verbatim>\<open>function providerFromModel(model)\<close>: the part of the trimmed model id before its
  first slash, the empty string when it has none. It throws when \<^verbatim>\<open>trim(model)\<close>
  does.
\<close>

definition providerFromModel :: "'n js_runtime \<Rightarrow> 'n json option \<Rightarrow> string" where
  "providerFromModel rt model =
     (let m = trim rt model
      in if CHR ''/'' \<in> set m then takeWhile (\<lambda>c. c \<noteq> CHR ''/'') m else '''')"

text \<open>
  \<^verbatim>\<open>function toUniqueStrings(values)\<close>: a filter with the set \<open>seen\<close> of the trimmed
  strings kept so far; the kept values are the untrimmed ones.
\<close>

fun uniqueFrom :: "string list \<Rightarrow> 'n json list \<Rightarrow> 'n json list" where
  "uniqueFrom seen [] = []"
| "uniqueFrom seen (JStr s # vs) =
     (let n = str_trim s
      in if n = '''' \<or> n \<in> set seen then uniqueFrom seen vs
         else JStr s # uniqueFrom (n # seen) vs)"
| "uniqueFrom seen (v # vs) = uniqueFrom seen vs"

definition toUniqueStrings :: "'n json list \<Rightarrow> 'n json list" where
  "toUniqueStrings values = uniqueFrom [] values"

subsection \<open>The provider table\<close>

record provider_spec =
  provider :: string
  envVar :: string
  profileKey :: string
  primaryModel :: string
  fallbackModels :: "string list"

definition PROVIDERS :: "provider_spec list" where
  "PROVIDERS =
    [\<lparr>provider = ''anthropic'', envVar = ''ANTHROPIC_API_KEY'',
      profileKey = ''anthropic:default'',
      primaryModel = ''anthropic/claude-sonnet-4-5'',
      fallbackModels = [''anthropic/claude-haiku-4-5'']\<rparr>,
     \<lparr>provider = ''openai-codex'', envVar = ''OPENAI_API_KEY'',
      profileKey = ''openai-codex:default'',
      primaryModel = ''openai-codex/gpt-5.3-codex'',
      fallbackModels = [''openai-codex/gpt-5.2-codex'']\<rparr>,
     \<lparr>provider = ''openai'', envVar = ''OPENAI_API_KEY'',
      profileKey = ''openai:default'',
      primaryModel = ''openai/gpt-5.2'',
      fallbackModels = [''openai/gpt-4o'']\<rparr>,
     \<lparr>provider = ''google'', envVar = ''GOOGLE_API_KEY'',
      profileKey = ''google:default'',
      primaryModel = ''google/gemini-3-pro-preview'',
      fallbackModels = []\<rparr>]"

text \<open>\<^verbatim>\<open>new Map(PROVIDERS.map((p) => [p.provider, p]))\<close>\<close>

definition PROVIDERS_BY_NAME :: "string \<Rightarrow> provider_spec option" where
  "PROVIDERS_BY_NAME = fold (\<lambda>p m. m(provider p \<mapsto> p)) PROVIDERS Map.empty"

section \<open>The rules of the pass\<close>

subsection \<open>Workspace\<close>

definition workspace_rule :: "env \<Rightarrow> string \<Rightarrow> 'n obj \<Rightarrow> 'n obj" where
  "workspace_rule env stateDir defaults =
     (let desiredWorkspace =
            or_else (trim_env env ''OPENCLAW_WORKSPACE_DIR'') (stateDir @ ''/workspace'')
      in if get ''workspace'' defaults \<noteq> Some (JStr desiredWorkspace)
         then put ''workspace'' (JStr desiredWorkspace) defaults
         else defaults)"

subsection \<open>Auth profiles from API keys\<close>

text \<open>
  \<^verbatim>\<open>!existing || existing.mode !== "token" || existing.provider !== pc.provider\<close>.
  A value that is not an object is falsy or has neither property, so the test holds for
  it.
\<close>

definition profile_differs :: "'n json option \<Rightarrow> provider_spec \<Rightarrow> bool" where
  "profile_differs existing pc =
     (case existing of
        Some (JObj kvs) \<Rightarrow>
          get ''mode'' kvs \<noteq> Some (JStr ''token'') \<or>
          get ''provider'' kvs \<noteq> Some (JStr (provider pc))
      | _ \<Rightarrow> True)"

text \<open>The state of the loop over \<^const>\<open>PROVIDERS\<close>.\<close>

record 'n auth_state =
  availableProviders :: "string list"
  seenEnvVars :: "string list"
  profiles :: "'n obj"

definition auth_step :: "env \<Rightarrow> provider_spec \<Rightarrow> 'n auth_state \<Rightarrow> 'n auth_state" where
  "auth_step env pc st =
     (if trim_env env (envVar pc) = '''' then st
      else if envVar pc \<in> set (seenEnvVars st) then st
      else st\<lparr>availableProviders := availableProviders st @ [provider pc],
              seenEnvVars := envVar pc # seenEnvVars st,
              profiles :=
                (if profile_differs (get (profileKey pc) (profiles st)) pc
                 then put (profileKey pc)
                        (JObj [(''mode'', JStr ''token''), (''provider'', JStr (provider pc))])
                        (profiles st)
                 else profiles st)\<rparr>)"

definition auth_profiles :: "env \<Rightarrow> 'n obj \<Rightarrow> 'n auth_state" where
  "auth_profiles env profiles0 =
     fold (auth_step env) PROVIDERS
       \<lparr>availableProviders = [], seenEnvVars = [], profiles = profiles0\<rparr>"

subsection \<open>Model selection\<close>

text \<open>Lines 138 to 148: the primary is reset only when it names no available provider.\<close>

definition select_primary :: "'n js_runtime \<Rightarrow> string list \<Rightarrow> 'n obj \<Rightarrow> 'n obj" where
  "select_primary rt available model =
     (let currentPrimary = trim rt (get ''primary'' model);
          currentProvider = providerFromModel rt (Some (JStr currentPrimary))
      in if currentPrimary = '''' \<or> currentProvider \<notin> set available then
           (case PROVIDERS_BY_NAME (hd available) of
              Some preferred \<Rightarrow>
                if get ''primary'' model \<noteq> Some (JStr (primaryModel preferred))
                then put ''primary'' (JStr (primaryModel preferred)) model
                else model
            | None \<Rightarrow> model)
         else model)"

text \<open>Lines 152 to 160.\<close>

definition recommended :: "'n js_runtime \<Rightarrow> string list \<Rightarrow> string \<Rightarrow> 'n json list" where
  "recommended rt available activePrimaryProvider =
     toUniqueStrings
       (filter (\<lambda>m. providerFromModel rt (Some m) \<noteq> activePrimaryProvider)
          (concat (map (\<lambda>p. case PROVIDERS_BY_NAME p of
                               Some pc \<Rightarrow> map JStr (primaryModel pc # fallbackModels pc)
                             | None \<Rightarrow> [])
                     (filter (\<lambda>p. p \<noteq> activePrimaryProvider) available))))"

text \<open>Lines 163 to 168.\<close>

definition filtered ::
  "'n js_runtime \<Rightarrow> string list \<Rightarrow> 'n json option \<Rightarrow> 'n json list \<Rightarrow> 'n json list" where
  "filtered rt available primary existing =
     toUniqueStrings
       (filter (\<lambda>m. let p = providerFromModel rt (Some m)
                    in p \<noteq> '''' \<and> p \<in> set available \<and> \<not> strict_eq rt m primary)
          existing)"

text \<open>Lines 171 to 173.\<close>

definition merged ::
  "'n js_runtime \<Rightarrow> string list \<Rightarrow> 'n json option \<Rightarrow> 'n json list \<Rightarrow> 'n json list" where
  "merged rt available primary existing =
     (let activePrimaryProvider = providerFromModel rt primary;
          kept = filtered rt available primary existing;
          fbProviders = set (filter (\<lambda>p. p \<noteq> '''') (map (\<lambda>m. providerFromModel rt (Some m)) kept));
          missing = filter (\<lambda>m. providerFromModel rt (Some m) \<notin> fbProviders)
                      (recommended rt available activePrimaryProvider)
      in toUniqueStrings (kept @ missing))"

text \<open>\<^verbatim>\<open>Array.isArray(model.fallbacks) ? model.fallbacks : []\<close>\<close>

definition existing_fallbacks :: "'n obj \<Rightarrow> 'n json list" where
  "existing_fallbacks model = (case get ''fallbacks'' model of Some (JArr xs) \<Rightarrow> xs | _ \<Rightarrow> [])"

text \<open>Lines 162 to 178.\<close>

definition select_fallbacks :: "'n js_runtime \<Rightarrow> string list \<Rightarrow> 'n obj \<Rightarrow> 'n obj" where
  "select_fallbacks rt available model =
     (let existing = existing_fallbacks model;
          new = merged rt available (get ''primary'' model) existing
      in if stringify rt (JArr existing) \<noteq> stringify rt (JArr new)
         then put ''fallbacks'' (JArr new) model
         else model)"

text \<open>
  Lines 136 to 179. The block converts three values of the document to strings:
  \<^verbatim>\<open>model.primary\<close> on line 138 and again, after the reset, on line 151, and every
  element of the existing fallbacks on line 165, in the callback of the first
  \<^verbatim>\<open>filter\<close>. A conversion that throws ends the \<^verbatim>\<open>try\<close> block. All other
  conversions of the block are of strings.
\<close>

datatype js_error = TypeError | IOError

definition model_selection ::
  "'n js_runtime \<Rightarrow> string list \<Rightarrow> 'n obj \<Rightarrow> js_error + 'n obj" where
  "model_selection rt available defaults =
     (if available = [] then Inr defaults
      else let defaults1 = ensureObject defaults ''model'';
               model = child defaults1 ''model''
           in if trim_throws (get ''primary'' model) then Inl TypeError
              else let model1 = select_primary rt available model
                   in if trim_throws (get ''primary'' model1) \<or>
                         list_ex (\<lambda>m. trim_throws (Some m)) (existing_fallbacks model1)
                      then Inl TypeError
                      else Inr (put ''model'' (JObj (select_fallbacks rt available model1))
                                  defaults1))"

subsection \<open>Agent defaults from the environment\<close>

definition thinking_rule :: "env \<Rightarrow> 'n obj \<Rightarrow> 'n obj" where
  "thinking_rule env defaults =
     (let thinkingDefault = trim_env env ''OPENCLAW_THINKING_DEFAULT''
      in if thinkingDefault \<noteq> '''' \<and>
            get ''thinkingDefault'' defaults \<noteq> Some (JStr thinkingDefault)
         then put ''thinkingDefault'' (JStr thinkingDefault) defaults
         else defaults)"

definition max_concurrent_rule :: "'n js_runtime \<Rightarrow> env \<Rightarrow> 'n obj \<Rightarrow> 'n obj" where
  "max_concurrent_rule rt env defaults =
     (let maxConcurrent = trim_env env ''OPENCLAW_MAX_CONCURRENT''
      in if maxConcurrent \<noteq> '''' \<and>
            \<not> strict_eq rt (JNum (Number rt maxConcurrent)) (get ''maxConcurrent'' defaults)
         then put ''maxConcurrent'' (JNum (Number rt maxConcurrent)) defaults
         else defaults)"

definition pruning_rule :: "env \<Rightarrow> 'n obj \<Rightarrow> 'n obj" where
  "pruning_rule env defaults =
     (let pruningMode = trim_env env ''OPENCLAW_CONTEXT_PRUNING_MODE''
      in if pruningMode \<noteq> '''' then
           let defaults1 = ensureObject defaults ''contextPruning'';
               pruning = child defaults1 ''contextPruning'';
               pruning1 = (if get ''mode'' pruning \<noteq> Some (JStr pruningMode)
                           then put ''mode'' (JStr pruningMode) pruning else pruning);
               ttl = trim_env env ''OPENCLAW_CONTEXT_PRUNING_TTL'';
               pruning2 = (if ttl \<noteq> '''' \<and> get ''ttl'' pruning1 \<noteq> Some (JStr ttl)
                           then put ''ttl'' (JStr ttl) pruning1 else pruning1)
           in put ''contextPruning'' (JObj pruning2) defaults1
         else defaults)"

definition compaction_rule :: "env \<Rightarrow> 'n obj \<Rightarrow> 'n obj" where
  "compaction_rule env defaults =
     (let compactionMode = trim_env env ''OPENCLAW_COMPACTION_MODE''
      in if compactionMode \<noteq> '''' then
           let defaults1 = ensureObject defaults ''compaction'';
               compaction = child defaults1 ''compaction''
           in put ''compaction''
                (JObj (if get ''mode'' compaction \<noteq> Some (JStr compactionMode)
                       then put ''mode'' (JStr compactionMode) compaction else compaction))
                defaults1
         else defaults)"

definition heartbeat_rule :: "env \<Rightarrow> 'n obj \<Rightarrow> 'n obj" where
  "heartbeat_rule env defaults =
     (let heartbeatEvery = trim_env env ''OPENCLAW_HEARTBEAT_EVERY''
      in if heartbeatEvery \<noteq> '''' then
           let defaults1 = ensureObject defaults ''heartbeat'';
               heartbeat = child defaults1 ''heartbeat''
           in put ''heartbeat''
                (JObj (if get ''every'' heartbeat \<noteq> Some (JStr heartbeatEvery)
                       then put ''every'' (JStr heartbeatEvery) heartbeat else heartbeat))
                defaults1
         else defaults)"

subsection \<open>Gateway and channels\<close>

definition gateway_rule :: "env \<Rightarrow> 'n obj \<Rightarrow> 'n obj" where
  "gateway_rule env config =
     (let gatewayToken = trim_env env ''OPENCLAW_GATEWAY_TOKEN''
      in if gatewayToken \<noteq> '''' then
           let config1 = ensureObject config ''gateway'';
               gateway = ensureObject (child config1 ''gateway'') ''auth'';
               gwAuth = child gateway ''auth'';
               gwAuth1 = (if get ''mode'' gwAuth \<noteq> Some (JStr ''token'') \<or>
                             get ''token'' gwAuth \<noteq> Some (JStr gatewayToken)
                          then put ''token'' (JStr gatewayToken)
                                 (put ''mode'' (JStr ''token'') gwAuth)
                          else gwAuth)
           in put ''gateway'' (JObj (put ''auth'' (JObj gwAuth1) gateway)) config1
         else config)"

text \<open>
  The blocks for Telegram and Discord differ in the channel name only: each sets
  \<^verbatim>\<open>channels.<name>.enabled\<close> and \<^verbatim>\<open>plugins.entries.<name>.enabled\<close> to
  \<^verbatim>\<open>true\<close>.
\<close>

definition set_enabled :: "'n obj \<Rightarrow> 'n obj" where
  "set_enabled target =
     (if get ''enabled'' target \<noteq> Some (JBool True)
      then put ''enabled'' (JBool True) target else target)"

definition enable_channel :: "string \<Rightarrow> 'n obj \<Rightarrow> 'n obj" where
  "enable_channel name config =
     (let config1 = ensureObject config ''channels'';
          channels = ensureObject (child config1 ''channels'') name;
          config2 = put ''channels''
                      (JObj (put name (JObj (set_enabled (child channels name))) channels))
                      config1;
          config3 = ensureObject config2 ''plugins'';
          plugins = ensureObject (child config3 ''plugins'') ''entries'';
          entries = ensureObject (child plugins ''entries'') name
      in put ''plugins''
           (JObj (put ''entries''
                    (JObj (put name (JObj (set_enabled (child entries name))) entries))
                    plugins))
           config3)"

definition telegram_rule :: "env \<Rightarrow> 'n obj \<Rightarrow> 'n obj" where
  "telegram_rule env config =
     (let telegramToken = trim_env env ''TELEGRAM_BOT_TOKEN''
      in if telegramToken \<noteq> '''' then enable_channel ''telegram'' config else config)"

definition discord_rule :: "env \<Rightarrow> 'n obj \<Rightarrow> 'n obj" where
  "discord_rule env config =
     (let discordToken = trim_env env ''DISCORD_BOT_TOKEN'';
          discordGuildId = trim_env env ''DISCORD_GUILD_ID''
      in if discordToken \<noteq> '''' \<and> discordGuildId \<noteq> ''''
         then enable_channel ''discord'' config else config)"

section \<open>The pass\<close>

text \<open>
  Lines 106 to 276 on the properties of the root object. \<^verbatim>\<open>agents\<close>, \<^verbatim>\<open>defaults\<close>,
  \<^verbatim>\<open>auth\<close> and \<^verbatim>\<open>profiles\<close> are references into the document in the script; here
  the objects they refer to are stored back under their keys once the rules that mutate
  them have run. The keys exist from the \<^const>\<open>ensureObject\<close> calls on, so they keep
  the place they have in the script.
\<close>

definition agent_defaults :: "'n js_runtime \<Rightarrow> env \<Rightarrow> 'n obj \<Rightarrow> 'n obj" where
  "agent_defaults rt env defaults =
     heartbeat_rule env
       (compaction_rule env
          (pruning_rule env
             (max_concurrent_rule rt env
                (thinking_rule env defaults))))"

definition sync_rules ::
  "'n js_runtime \<Rightarrow> env \<Rightarrow> string \<Rightarrow> 'n obj \<Rightarrow> js_error + 'n obj" where
  "sync_rules rt env stateDir config =
     (let config1 = ensureObject config ''agents'';
          agents = ensureObject (child config1 ''agents'') ''defaults'';
          defaults1 = workspace_rule env stateDir (child agents ''defaults'');
          config2 = ensureObject config1 ''auth'';
          auth = ensureObject (child config2 ''auth'') ''profiles'';
          st = auth_profiles env (child auth ''profiles'')
      in case model_selection rt (availableProviders st) defaults1 of
           Inl err \<Rightarrow> Inl err
         | Inr defaults2 \<Rightarrow>
             let defaults3 = agent_defaults rt env defaults2;
                 config3 = put ''auth'' (JObj (put ''profiles'' (JObj (profiles st)) auth))
                             (put ''agents'' (JObj (put ''defaults'' (JObj defaults3) agents))
                                config2)
             in Inr (discord_rule env (telegram_rule env (gateway_rule env config3))))"

text \<open>
  The rules on the value that was loaded. On \<^verbatim>\<open>null\<close>, a boolean, a number or a
  string the first \<^verbatim>\<open>ensureObject(config, "agents")\<close> throws a \<^verbatim>\<open>TypeError\<close> (the
  module is in strict mode). On an array the rules run on named properties of the array,
  which are no part of its serialisation and are objects made by the pass, with nothing
  to convert: as a document the array is unchanged.
\<close>

fun reconcile ::
  "'n js_runtime \<Rightarrow> env \<Rightarrow> string \<Rightarrow> 'n json \<Rightarrow> js_error + 'n json" where
  "reconcile rt env stateDir (JObj config) =
     (case sync_rules rt env stateDir config of
        Inl err \<Rightarrow> Inl err
      | Inr updated \<Rightarrow> Inr (JObj updated))"
| "reconcile rt env stateDir (JArr xs) = Inr (JArr xs)"
| "reconcile rt env stateDir _ = Inl TypeError"

section \<open>The file system and the run\<close>

text \<open>
  A file is absent, or it exists and cannot be read or parsed, or its text parses to a
  value. \<open>can_mkdir\<close> tells whether \<^verbatim>\<open>fs.mkdirSync\<close> succeeds on a path, and
  \<open>can_write n\<close> whether the call of \<^verbatim>\<open>fs.writeFileSync\<close> on a path succeeds
  when the run has made \<open>n\<close> calls before it; they throw otherwise.
\<close>

datatype 'n file_state = Absent | Unreadable | Holds "'n json"

record 'n file_system =
  files :: "string \<Rightarrow> 'n file_state"
  can_mkdir :: "string \<Rightarrow> bool"
  can_write :: "nat \<Rightarrow> string \<Rightarrow> bool"

text \<open>\<^verbatim>\<open>function readConfig(configPath)\<close>: any failure gives \<^verbatim>\<open>{}\<close>.\<close>

fun readConfig :: "'n file_state \<Rightarrow> 'n json" where
  "readConfig (Holds v) = v"
| "readConfig _ = JObj []"

definition stateDir_of :: "env \<Rightarrow> string" where
  "stateDir_of env = or_else (trim_env env ''OPENCLAW_STATE_DIR'') ''/data''"

definition configPath_of :: "env \<Rightarrow> string" where
  "configPath_of env =
     or_else (trim_env env ''OPENCLAW_CONFIG_FILE'') (stateDir_of env @ ''/openclaw.json'')"

text \<open>
  What a run does: the calls of \<^verbatim>\<open>fs.writeFileSync\<close> in order, each with its path and
  the text written, the error caught by the \<^verbatim>\<open>catch\<close> block if any, and the exit
  status of the process.
\<close>

record run_result =
  writes :: "(string \<times> string json) list"
  caught :: "js_error option"
  exit_status :: nat

text \<open>Lines 278 to 285, after the rules have run on \<open>config\<close>.\<close>

definition write_back ::
  "'n js_runtime \<Rightarrow> 'n file_system \<Rightarrow> string \<Rightarrow> (string \<times> string json) list \<Rightarrow>
   'n json \<Rightarrow> 'n json \<Rightarrow> (string \<times> string json) list \<times> js_error option" where
  "write_back rt fs configPath done original updated =
     (if stringify rt updated \<noteq> stringify rt original then
        (done @ [(configPath, stringify rt updated)],
         if can_write fs (length done) configPath then None else Some IOError)
      else (done, None))"

text \<open>Lines 103 to 285, on the file that is there after line 101.\<close>

definition load_and_sync ::
  "'n js_runtime \<Rightarrow> env \<Rightarrow> 'n file_system \<Rightarrow> (string \<times> string json) list \<Rightarrow>
   'n file_state \<Rightarrow> (string \<times> string json) list \<times> js_error option" where
  "load_and_sync rt env fs done present =
     (let config = readConfig present
      in case reconcile rt env (stateDir_of env) config of
           Inl err \<Rightarrow> (done, Some err)
         | Inr updated \<Rightarrow> write_back rt fs (configPath_of env) done config updated)"

text \<open>The body of the \<^verbatim>\<open>try\<close> block, lines 94 to 285.\<close>

definition try_block ::
  "'n js_runtime \<Rightarrow> env \<Rightarrow> 'n file_system \<Rightarrow> (string \<times> string json) list \<times> js_error option" where
  "try_block rt env fs =
     (let stateDir = stateDir_of env;
          configPath = configPath_of env
      in if files fs configPath = Absent then
           if \<not> can_mkdir fs stateDir then ([], Some IOError)
           else if \<not> can_write fs 0 configPath then ([(configPath, JObj [])], Some IOError)
           else load_and_sync rt env fs [(configPath, JObj [])] (Holds (JObj []))
         else load_and_sync rt env fs [] (files fs configPath))"

text \<open>
  The script: the \<^verbatim>\<open>catch\<close> block logs the error and returns, and nothing sets an
  exit code, so the process ends with status 0 on both paths.
\<close>

definition main :: "'n js_runtime \<Rightarrow> env \<Rightarrow> 'n file_system \<Rightarrow> run_result" where
  "main rt env fs =
     (case try_block rt env fs of
        (ws, None) \<Rightarrow> \<lparr>writes = ws, caught = None, exit_status = 0\<rparr>
      | (ws, Some err) \<Rightarrow> \<lparr>writes = ws, caught = Some err, exit_status = 0\<rparr>)"

section \<open>Derived notions and examples\<close>

text \<open>
  The list of available providers is a function of the three credential variables: the
  second specification with \<^verbatim>\<open>OPENAI_API_KEY\<close>, \<^verbatim>\<open>openai\<close>, is skipped by the
  \<^verbatim>\<open>seenEnvVars\<close> test whenever the variable is set.
\<close>

definition available :: "env \<Rightarrow> string list" where
  "available env =
     (if trim_env env ''ANTHROPIC_API_KEY'' \<noteq> '''' then [''anthropic''] else []) @
     (if trim_env env ''OPENAI_API_KEY'' \<noteq> '''' then [''openai-codex''] else []) @
     (if trim_env env ''GOOGLE_API_KEY'' \<noteq> '''' then [''google''] else [])"

text \<open>
  The pass throws in the model selection only, and only on a value that cannot be
  converted to a string: \<^verbatim>\<open>model.primary\<close> or an element of the array
  \<^verbatim>\<open>model.fallbacks\<close> of the document, when a provider is available.
\<close>

definition rules_throw :: "env \<Rightarrow> 'n obj \<Rightarrow> bool" where
  "rules_throw env config =
     (let model = child (child (child config ''agents'') ''defaults'') ''model''
      in available env \<noteq> [] \<and>
         (trim_throws (get ''primary'' model) \<or>
          list_ex (\<lambda>m. trim_throws (Some m)) (existing_fallbacks model)))"

text \<open>
  What the model selection and the whole pass leave when nothing throws: the definitions
  of \<^const>\<open>model_selection\<close> and \<^const>\<open>sync_rules\<close> without their error branches.
\<close>

definition model_result :: "'n js_runtime \<Rightarrow> string list \<Rightarrow> 'n obj \<Rightarrow> 'n obj" where
  "model_result rt providers defaults =
     (if providers = [] then defaults
      else let defaults1 = ensureObject defaults ''model'';
               model = child defaults1 ''model''
           in put ''model''
                (JObj (select_fallbacks rt providers (select_primary rt providers model)))
                defaults1)"

definition sync_result :: "'n js_runtime \<Rightarrow> env \<Rightarrow> string \<Rightarrow> 'n obj \<Rightarrow> 'n obj" where
  "sync_result rt env stateDir config =
     (let config1 = ensureObject config ''agents'';
          agents = ensureObject (child config1 ''agents'') ''defaults'';
          defaults1 = workspace_rule env stateDir (child agents ''defaults'');
          config2 = ensureObject config1 ''auth'';
          auth = ensureObject (child config2 ''auth'') ''profiles'';
          st = auth_profiles env (child auth ''profiles'');
          defaults2 = model_result rt (availableProviders st) defaults1;
          defaults3 = agent_defaults rt env defaults2;
          config3 = put ''auth'' (JObj (put ''profiles'' (JObj (profiles st)) auth))
                      (put ''agents'' (JObj (put ''defaults'' (JObj defaults3) agents)) config2)
      in discord_rule env (telegram_rule env (gateway_rule env config3)))"

text \<open>
  The examples below contain no number and do not set \<^verbatim>\<open>OPENCLAW_MAX_CONCURRENT\<close>,
  so no operation on numbers is reached; their number type is \<open>unit\<close>.
\<close>

definition no_numbers :: "unit js_runtime" where
  "no_numbers =
     \<lparr>num_String = (\<lambda>_. ''NaN''), Number = (\<lambda>_. ()),
      num_strict_eq = (\<lambda>_ _. False), num_JSON = (\<lambda>_. ''null'')\<rparr>"

definition env_openai :: env where
  "env_openai = [''OPENAI_API_KEY'' \<mapsto> ''sk-openai'']"

text \<open>The rules on \<^verbatim>\<open>agents.defaults\<close>, in the order in which the script runs them.\<close>

definition defaults_rules :: "'n js_runtime \<Rightarrow> env \<Rightarrow> string \<Rightarrow> 'n obj \<Rightarrow> 'n obj" where
  "defaults_rules rt env stateDir defaults =
     agent_defaults rt env
       (model_result rt (available env) (workspace_rule env stateDir defaults))"

definition env_pruning_both :: env where
  "env_pruning_both =
     [''OPENCLAW_CONTEXT_PRUNING_MODE'' \<mapsto> ''cache-ttl'',
      ''OPENCLAW_CONTEXT_PRUNING_TTL'' \<mapsto> ''5m'']"

definition env_pruning_ttl :: env where
  "env_pruning_ttl = [''OPENCLAW_CONTEXT_PRUNING_TTL'' \<mapsto> ''5m'']"

definition doc_pruning :: "unit obj" where
  "doc_pruning =
     [(''agents'', JObj [(''defaults'', JObj [(''contextPruning'',
        JObj [(''mode'', JStr ''cache-ttl''), (''ttl'', JStr ''1h'')])])])]"


definition env_anthropic :: env where
  "env_anthropic = [''ANTHROPIC_API_KEY'' \<mapsto> ''sk-ant'']"

definition doc_primary :: "string \<Rightarrow> unit obj" where
  "doc_primary model_id =
     [(''agents'', JObj [(''defaults'', JObj [(''model'',
        JObj [(''primary'', JStr model_id)])])])]"


definition env_all :: env where
  "env_all =
     [''ANTHROPIC_API_KEY'' \<mapsto> ''sk-ant'', ''OPENAI_API_KEY'' \<mapsto> ''sk-openai'',
      ''GOOGLE_API_KEY'' \<mapsto> ''g-key'']"





definition doc_settled :: "unit obj" where
  "doc_settled =
     [(''agents'', JObj [(''defaults'',
        JObj [(''workspace'', JStr ''/data/workspace''),
              (''model'', JObj [(''primary'', JStr ''anthropic/claude-sonnet-4-5'')])])]),
      (''auth'', JObj [(''profiles'', JObj [(''anthropic:default'',
        JObj [(''mode'', JStr ''token''), (''provider'', JStr ''anthropic'')])])])]"


definition fs_settled :: "unit file_system" where
  "fs_settled =
     \<lparr>files = (\<lambda>path. Holds (JObj doc_settled)),
      can_mkdir = (\<lambda>path. True), can_write = (\<lambda>n path. True)\<rparr>"



text \<open>
  \<^verbatim>\<open>const child = ensureObject(target, key)\<close> followed by mutations of \<open>child\<close>, as one
  function of the target: \<open>f\<close> is what the mutations do to the child.
\<close>

definition in_object :: "string \<Rightarrow> ('n obj \<Rightarrow> 'n obj) \<Rightarrow> 'n obj \<Rightarrow> 'n obj" where
  "in_object key f target = put key (JObj (f (child target key))) target"

text \<open>Lines 128 to 132: the profile of one provider, written when it differs.\<close>

definition ensure_profile :: "provider_spec \<Rightarrow> 'n obj \<Rightarrow> 'n obj" where
  "ensure_profile pc profs =
     (if profile_differs (get (profileKey pc) profs) pc
      then put (profileKey pc)
             (JObj [(''mode'', JStr ''token''), (''provider'', JStr (provider pc))]) profs
      else profs)"



section \<open>Facts about property access\<close>

lemma get_put_same [simp]: "get k (put k v d) = Some v"
  by (induction d) auto

lemma get_put_other [simp]: "k' \<noteq> k \<Longrightarrow> get k' (put k v d) = get k' d"
  by (induction d) auto

lemma put_same: "get k d = Some v \<Longrightarrow> put k v d = d"
  by (induction d) (auto split: if_splits)

lemma put_put [simp]: "put k v (put k w d) = put k v d"
  by (induction d) auto

lemma put_eq_self_iff: "put k v d = d \<longleftrightarrow> get k d = Some v"
proof
  assume "put k v d = d"
  then have "get k (put k v d) = get k d" by simp
  then show "get k d = Some v" by simp
qed (rule put_same)

lemma get_ensureObject_same [simp]: "get k (ensureObject d k) = Some (JObj (child d k))"
  by (auto simp: ensureObject_def child_def split: option.splits json.splits)

lemma get_ensureObject_other [simp]: "k' \<noteq> k \<Longrightarrow> get k' (ensureObject d k) = get k' d"
  by (auto simp: ensureObject_def split: option.splits json.splits)

lemma child_ensureObject_same [simp]: "child (ensureObject d k) k = child d k"
  by (simp add: child_def)

lemma child_ensureObject_other [simp]: "k' \<noteq> k \<Longrightarrow> child (ensureObject d k) k' = child d k'"
  by (simp add: child_def)

lemma put_ensureObject [simp]: "put k v (ensureObject d k) = put k v d"
  by (auto simp: ensureObject_def split: option.splits json.splits)

lemma child_put_same [simp]: "child (put k (JObj kvs) d) k = kvs"
  by (simp add: child_def)

lemma child_put_other [simp]: "k' \<noteq> k \<Longrightarrow> child (put k v d) k' = child d k'"
  by (simp add: child_def)

lemma put_child_same: "get k d = Some (JObj kvs) \<Longrightarrow> put k (JObj (child d k)) d = d"
  by (simp add: child_def put_same)

section \<open>The available providers\<close>

lemma str_trim_Nil [simp]: "str_trim '''' = ''''"
  by (simp add: str_trim_def)

lemma trim_env_upd [simp]:
  "trim_env (env(k \<mapsto> v)) k' = (if k' = k then str_trim v else trim_env env k')"
  by (simp add: trim_env_def)

lemma trim_env_empty [simp]: "trim_env Map.empty k = ''''"
  by (simp add: trim_env_def)

lemma availableProviders_auth_step:
  "availableProviders (auth_step env pc st) =
     (if trim_env env (envVar pc) = [] \<or> envVar pc \<in> set (seenEnvVars st)
      then availableProviders st else availableProviders st @ [provider pc])"
  by (simp add: auth_step_def)

lemma seenEnvVars_auth_step:
  "seenEnvVars (auth_step env pc st) =
     (if trim_env env (envVar pc) = [] \<or> envVar pc \<in> set (seenEnvVars st)
      then seenEnvVars st else envVar pc # seenEnvVars st)"
  by (simp add: auth_step_def)

lemma availableProviders_auth_profiles:
  "availableProviders (auth_profiles env p) = available env"
  by (simp add: auth_profiles_def PROVIDERS_def availableProviders_auth_step
        seenEnvVars_auth_step available_def)

section \<open>What each rule reads and writes\<close>

text \<open>Every rule on \<^verbatim>\<open>agents.defaults\<close> leaves the other keys of the object alone.\<close>

lemma get_workspace_rule_other:
  "k \<noteq> ''workspace'' \<Longrightarrow> get k (workspace_rule env sd d) = get k d"
  by (simp add: workspace_rule_def Let_def)

lemma get_model_result_other:
  "k \<noteq> ''model'' \<Longrightarrow> get k (model_result rt av d) = get k d"
  by (simp add: model_result_def Let_def)

lemma get_thinking_rule_other:
  "k \<noteq> ''thinkingDefault'' \<Longrightarrow> get k (thinking_rule env d) = get k d"
  by (simp add: thinking_rule_def Let_def)

lemma get_max_concurrent_rule_other:
  "k \<noteq> ''maxConcurrent'' \<Longrightarrow> get k (max_concurrent_rule rt env d) = get k d"
  by (simp add: max_concurrent_rule_def Let_def)

lemma get_pruning_rule_other:
  "k \<noteq> ''contextPruning'' \<Longrightarrow> get k (pruning_rule env d) = get k d"
  by (simp add: pruning_rule_def Let_def)

lemma get_compaction_rule_other:
  "k \<noteq> ''compaction'' \<Longrightarrow> get k (compaction_rule env d) = get k d"
  by (simp add: compaction_rule_def Let_def)

lemma get_heartbeat_rule_other:
  "k \<noteq> ''heartbeat'' \<Longrightarrow> get k (heartbeat_rule env d) = get k d"
  by (simp add: heartbeat_rule_def Let_def)

lemmas get_defaults_rule_other =
  get_workspace_rule_other get_model_result_other get_thinking_rule_other
  get_max_concurrent_rule_other get_pruning_rule_other get_compaction_rule_other
  get_heartbeat_rule_other

text \<open>The rules on the root object.\<close>

lemma get_gateway_rule_other:
  "k \<noteq> ''gateway'' \<Longrightarrow> get k (gateway_rule env c) = get k c"
  by (simp add: gateway_rule_def Let_def)

lemma get_enable_channel_other:
  "k \<noteq> ''channels'' \<Longrightarrow> k \<noteq> ''plugins'' \<Longrightarrow> get k (enable_channel name c) = get k c"
  by (simp add: enable_channel_def Let_def)

lemma get_telegram_rule_other:
  "k \<noteq> ''channels'' \<Longrightarrow> k \<noteq> ''plugins'' \<Longrightarrow> get k (telegram_rule env c) = get k c"
  by (simp add: telegram_rule_def Let_def get_enable_channel_other)

lemma get_discord_rule_other:
  "k \<noteq> ''channels'' \<Longrightarrow> k \<noteq> ''plugins'' \<Longrightarrow> get k (discord_rule env c) = get k c"
  by (simp add: discord_rule_def Let_def get_enable_channel_other)

lemmas get_root_rule_other =
  get_gateway_rule_other get_telegram_rule_other get_discord_rule_other

text \<open>
  The object under \<^verbatim>\<open>agents.defaults\<close> after the pass: the rules in their order, on
  the object that was there (the empty object when there was none).
\<close>

lemma get_agents_sync_result:
  "get ''agents'' (sync_result rt env sd c) =
     Some (JObj (put ''defaults''
       (JObj (defaults_rules rt env sd (child (child c ''agents'') ''defaults'')))
       (child c ''agents'')))"
  by (simp add: sync_result_def Let_def get_root_rule_other defaults_rules_def
        availableProviders_auth_profiles)

lemma get_path_defaults_sync_result:
  "get_path (''agents'' # ''defaults'' # ks) (JObj (sync_result rt env sd c)) =
     get_path ks (JObj (defaults_rules rt env sd (child (child c ''agents'') ''defaults'')))"
  by (simp add: get_agents_sync_result)

lemma get_path_defaults_before:
  "get_path (''agents'' # ''defaults'' # k # ks) (JObj c) =
     get_path (k # ks) (JObj (child (child c ''agents'') ''defaults''))"
  by (simp add: child_def split: option.splits json.splits)

section \<open>Trimming and model ids\<close>

lemma dropWhile_rev_dropWhile:
  "dropWhile P (rev (dropWhile P (rev (dropWhile P s)))) = rev (dropWhile P (rev (dropWhile P s)))"
proof (cases "rev (dropWhile P (rev (dropWhile P s))) = []")
  case True
  show ?thesis unfolding True by simp
next
  case False
  let ?u = "dropWhile P s"
  have u: "?u \<noteq> []"
  proof
    assume e: "?u = []"
    have "rev (dropWhile P (rev ?u)) = []" unfolding e by simp
    with False show False by contradiction
  qed
  then have hd_u: "\<not> P (hd ?u)" by (simp add: hd_dropWhile)
  obtain ys where ys: "rev ?u = takeWhile P (rev ?u) @ ys" "ys = dropWhile P (rev ?u)"
    by simp
  then have "?u = rev ys @ rev (takeWhile P (rev ?u))"
    by (metis rev_append rev_rev_ident)
  moreover from False ys have "rev ys \<noteq> []" by simp
  ultimately have "hd (rev ys) = hd ?u" by (metis hd_append2)
  with hd_u ys False show ?thesis
    by (simp add: dropWhile_eq_self_iff)
qed

lemma str_trim_idem [simp]: "str_trim (str_trim s) = str_trim s"
  by (simp add: str_trim_def dropWhile_rev_dropWhile dropWhile_idem)

lemma trim_JStr [simp]: "trim rt (Some (JStr s)) = str_trim s"
  by simp

lemma str_trim_trim [simp]: "str_trim (trim rt x) = trim rt x"
  by (cases "(rt, x)" rule: trim.cases) simp_all

lemma trim_trim [simp]: "trim rt (Some (JStr (trim rt x))) = trim rt x"
  by (cases "(rt, x)" rule: trim.cases) simp_all

lemma providerFromModel_trim [simp]:
  "providerFromModel rt (Some (JStr (trim rt x))) = providerFromModel rt x"
  by (simp add: providerFromModel_def del: trim.simps)

lemma providerFromModel_nonempty_trim:
  "providerFromModel rt x \<noteq> '''' \<Longrightarrow> trim rt x \<noteq> ''''"
  by (auto simp: providerFromModel_def Let_def)

text \<open>
  The provider of a string depends on the trimmed string only; it does not depend on
  the operations on numbers.
\<close>

lemma providerFromModel_JStr:
  "providerFromModel rt (Some (JStr s)) =
     (if CHR ''/'' \<in> set (str_trim s) then takeWhile (\<lambda>c. c \<noteq> CHR ''/'') (str_trim s) else '''')"
  by (simp add: providerFromModel_def)

lemma providerFromModel_same_trim:
  "str_trim s = str_trim t \<Longrightarrow>
   providerFromModel rt (Some (JStr s)) = providerFromModel rt (Some (JStr t))"
  by (simp add: providerFromModel_JStr)

section \<open>Facts about \<open>toUniqueStrings\<close>\<close>

lemma set_uniqueFrom_subset: "set (uniqueFrom seen xs) \<subseteq> set xs"
  by (induction seen xs rule: uniqueFrom.induct) (auto simp: Let_def)

lemma uniqueFrom_is_string:
  "x \<in> set (uniqueFrom seen xs) \<Longrightarrow>
   \<exists>s. x = JStr s \<and> str_trim s \<noteq> '''' \<and> str_trim s \<notin> set seen"
  by (induction seen xs rule: uniqueFrom.induct) (auto simp: Let_def split: if_splits)

lemma uniqueFrom_idem: "uniqueFrom seen (uniqueFrom seen xs) = uniqueFrom seen xs"
  by (induction seen xs rule: uniqueFrom.induct) (auto simp: Let_def)

lemma uniqueFrom_keeps_trim:
  "JStr s \<in> set xs \<Longrightarrow> str_trim s \<noteq> '''' \<Longrightarrow> str_trim s \<notin> set seen \<Longrightarrow>
   \<exists>t. JStr t \<in> set (uniqueFrom seen xs) \<and> str_trim t = str_trim s"
proof (induction seen xs rule: uniqueFrom.induct)
  case (2 seen u vs)
  show ?case
  proof (cases "str_trim u = str_trim s")
    case True
    with 2 show ?thesis by (auto simp: Let_def)
  next
    case False
    with 2 show ?thesis by (auto simp: Let_def)
  qed
qed auto

lemma set_toUniqueStrings_subset: "set (toUniqueStrings xs) \<subseteq> set xs"
  by (simp add: toUniqueStrings_def set_uniqueFrom_subset)

lemma toUniqueStrings_is_string:
  "x \<in> set (toUniqueStrings xs) \<Longrightarrow> \<exists>s. x = JStr s \<and> str_trim s \<noteq> ''''"
  by (auto simp: toUniqueStrings_def dest: uniqueFrom_is_string)

lemma toUniqueStrings_idem [simp]: "toUniqueStrings (toUniqueStrings xs) = toUniqueStrings xs"
  by (simp add: toUniqueStrings_def uniqueFrom_idem)

lemma toUniqueStrings_keeps_trim:
  "JStr s \<in> set xs \<Longrightarrow> str_trim s \<noteq> '''' \<Longrightarrow>
   \<exists>t. JStr t \<in> set (toUniqueStrings xs) \<and> str_trim t = str_trim s"
  by (simp add: toUniqueStrings_def uniqueFrom_keeps_trim)

lemma toUniqueStrings_keeps_provider:
  assumes "x \<in> set xs" and "x = JStr s" and "str_trim s \<noteq> ''''"
  shows "\<exists>y \<in> set (toUniqueStrings xs).
           providerFromModel rt (Some y) = providerFromModel rt (Some x)"
proof -
  from assms obtain t where "JStr t \<in> set (toUniqueStrings xs)" "str_trim t = str_trim s"
    using toUniqueStrings_keeps_trim by blast
  with assms(2) show ?thesis
    by (auto intro!: bexI [of _ "JStr t"] providerFromModel_same_trim)
qed

section \<open>Facts about the provider table\<close>

lemma PROVIDERS_BY_NAME_eq:
  "PROVIDERS_BY_NAME =
     [''anthropic'' \<mapsto> PROVIDERS ! 0, ''openai-codex'' \<mapsto> PROVIDERS ! 1,
      ''openai'' \<mapsto> PROVIDERS ! 2, ''google'' \<mapsto> PROVIDERS ! 3]"
  by (simp add: PROVIDERS_BY_NAME_def PROVIDERS_def)

lemma PROVIDERS_BY_NAME_cases:
  assumes "PROVIDERS_BY_NAME p = Some pc"
  shows "p \<in> {''anthropic'', ''openai-codex'', ''openai'', ''google''} \<and>
         provider pc = p \<and> pc \<in> set PROVIDERS"
  using assms by (auto simp: PROVIDERS_BY_NAME_eq PROVIDERS_def split: if_splits)

text \<open>Every model id of a specification has the provider of the specification.\<close>

lemma table_model_provider:
  assumes "pc \<in> set PROVIDERS" and "m \<in> set (primaryModel pc # fallbackModels pc)"
  shows "providerFromModel rt (Some (JStr m)) = provider pc \<and> str_trim m = m \<and> m \<noteq> ''''"
  using assms
  by (auto simp: PROVIDERS_def providerFromModel_JStr str_trim_def is_space_def)

lemma table_provider_nonempty: "pc \<in> set PROVIDERS \<Longrightarrow> provider pc \<noteq> ''''"
  by (auto simp: PROVIDERS_def)

lemma available_names:
  "p \<in> set (available env) \<Longrightarrow> p \<in> {''anthropic'', ''openai-codex'', ''google''}"
  by (auto simp: available_def split: if_splits)

lemma empty_not_available [simp]: "'''' \<notin> set (available env)"
  by (auto dest: available_names)

section \<open>Facts about the model selection\<close>

lemma strict_eq_JStr [simp]: "strict_eq rt (JStr s) P \<longleftrightarrow> P = Some (JStr s)"
  by (cases "(rt, JStr s :: 'a json, P)" rule: strict_eq.cases) auto

lemma recommended_elem:
  assumes "x \<in> set (recommended rt av a)"
  shows "\<exists>s. x = JStr s \<and> str_trim s \<noteq> '''' \<and>
             providerFromModel rt (Some x) \<in> set av \<and>
             providerFromModel rt (Some x) \<noteq> a \<and>
             providerFromModel rt (Some x) \<noteq> ''''"
proof -
  from assms obtain s where s: "x = JStr s" "str_trim s \<noteq> ''''"
    unfolding recommended_def by (blast dest: toUniqueStrings_is_string)
  from assms have in_filter: "x \<in> set (filter (\<lambda>m. providerFromModel rt (Some m) \<noteq> a)
      (concat (map (\<lambda>p. case PROVIDERS_BY_NAME p of
                          Some pc \<Rightarrow> map JStr (primaryModel pc # fallbackModels pc)
                        | None \<Rightarrow> [])
                 (filter (\<lambda>p. p \<noteq> a) av))))"
    unfolding recommended_def using set_toUniqueStrings_subset by blast
  then have not_a: "providerFromModel rt (Some x) \<noteq> a" by simp
  from in_filter obtain p where p0: "p \<in> set av"
      "x \<in> set (case PROVIDERS_BY_NAME p of
                 Some pc \<Rightarrow> map JStr (primaryModel pc # fallbackModels pc)
               | None \<Rightarrow> [])"
    by auto
  then obtain pc where p: "p \<in> set av" "PROVIDERS_BY_NAME p = Some pc"
      "x \<in> set (map JStr (primaryModel pc # fallbackModels pc))"
    by (cases "PROVIDERS_BY_NAME p") auto
  from p(2) have pc: "pc \<in> set PROVIDERS" "provider pc = p"
    by (simp_all add: PROVIDERS_BY_NAME_cases)
  from p(3) s obtain m where m: "x = JStr m" "m \<in> set (primaryModel pc # fallbackModels pc)"
    by auto
  from table_model_provider [OF pc(1) m(2), of rt] pc(2) m(1) table_provider_nonempty [OF pc(1)]
  have "providerFromModel rt (Some x) = p" "p \<noteq> ''''" by simp_all
  with s p(1) not_a show ?thesis by simp
qed

lemma filtered_elem:
  assumes "x \<in> set (filtered rt av P E)"
  shows "x \<in> set E \<and> (\<exists>s. x = JStr s \<and> str_trim s \<noteq> '''') \<and>
         providerFromModel rt (Some x) \<noteq> '''' \<and>
         providerFromModel rt (Some x) \<in> set av \<and> \<not> strict_eq rt x P"
proof -
  from assms have "\<exists>s. x = JStr s \<and> str_trim s \<noteq> ''''"
    unfolding filtered_def by (rule toUniqueStrings_is_string)
  moreover from assms have "x \<in> set (filter (\<lambda>m. let p = providerFromModel rt (Some m)
      in p \<noteq> '''' \<and> p \<in> set av \<and> \<not> strict_eq rt m P) E)"
    unfolding filtered_def using set_toUniqueStrings_subset by blast
  ultimately show ?thesis by (simp add: Let_def)
qed

lemma merged_elem:
  assumes "x \<in> set (merged rt av P E)"
  shows "(\<exists>s. x = JStr s \<and> str_trim s \<noteq> '''') \<and>
         providerFromModel rt (Some x) \<noteq> '''' \<and>
         providerFromModel rt (Some x) \<in> set av \<and> \<not> strict_eq rt x P \<and>
         (x \<in> set E \<or> providerFromModel rt (Some x) \<noteq> providerFromModel rt P)"
proof -
  from assms have "x \<in> set (filtered rt av P E) \<or> x \<in> set (recommended rt av (providerFromModel rt P))"
    unfolding merged_def Let_def using set_toUniqueStrings_subset by fastforce
  then show ?thesis
  proof
    assume "x \<in> set (filtered rt av P E)"
    then show ?thesis by (simp add: filtered_elem)
  next
    assume "x \<in> set (recommended rt av (providerFromModel rt P))"
    from recommended_elem [OF this] show ?thesis by auto
  qed
qed

text \<open>A second merge, on the result of the first, changes nothing.\<close>

lemma filtered_merged: "filtered rt av P (merged rt av P E) = merged rt av P E"
proof -
  have "filter (\<lambda>m. let p = providerFromModel rt (Some m)
                    in p \<noteq> '''' \<and> p \<in> set av \<and> \<not> strict_eq rt m P) (merged rt av P E) =
        merged rt av P E"
    by (rule filter_True) (simp add: merged_elem Let_def)
  moreover have "toUniqueStrings (merged rt av P E) = merged rt av P E"
    by (simp add: merged_def Let_def)
  ultimately show ?thesis by (simp add: filtered_def)
qed

lemma merged_covers_recommended:
  assumes "r \<in> set (recommended rt av (providerFromModel rt P))"
  shows "\<exists>y \<in> set (merged rt av P E).
           providerFromModel rt (Some y) = providerFromModel rt (Some r)"
proof -
  let ?kept = "filtered rt av P E"
  let ?fb = "set (filter (\<lambda>p. p \<noteq> '''') (map (\<lambda>m. providerFromModel rt (Some m)) ?kept))"
  let ?missing = "filter (\<lambda>m. providerFromModel rt (Some m) \<notin> ?fb)
                    (recommended rt av (providerFromModel rt P))"
  have merged: "merged rt av P E = toUniqueStrings (?kept @ ?missing)"
    by (simp add: merged_def Let_def)
  show ?thesis
  proof (cases "providerFromModel rt (Some r) \<in> ?fb")
    case True
    then obtain f where f: "f \<in> set ?kept"
        "providerFromModel rt (Some f) = providerFromModel rt (Some r)"
      by auto
    from filtered_elem [OF f(1)] obtain s where s: "f = JStr s" "str_trim s \<noteq> ''''"
      by auto
    from f(1) have "f \<in> set (?kept @ ?missing)" by simp
    from toUniqueStrings_keeps_provider [OF this s, of rt] f(2) show ?thesis
      unfolding merged by auto
  next
    case False
    with assms have "r \<in> set (?kept @ ?missing)" by simp
    moreover from recommended_elem [OF assms] obtain s where "r = JStr s" "str_trim s \<noteq> ''''"
      by auto
    ultimately show ?thesis
      unfolding merged by (rule toUniqueStrings_keeps_provider)
  qed
qed

lemma merged_idem: "merged rt av P (merged rt av P E) = merged rt av P E"
proof -
  let ?N = "merged rt av P E"
  let ?fb = "set (filter (\<lambda>p. p \<noteq> '''') (map (\<lambda>m. providerFromModel rt (Some m)) ?N))"
  have "filter (\<lambda>m. providerFromModel rt (Some m) \<notin> ?fb)
          (recommended rt av (providerFromModel rt P)) = []"
  proof (rule filter_False, rule ballI)
    fix r assume r: "r \<in> set (recommended rt av (providerFromModel rt P))"
    from merged_covers_recommended [OF r, of E] obtain y where
      "y \<in> set ?N" "providerFromModel rt (Some y) = providerFromModel rt (Some r)" by auto
    moreover from recommended_elem [OF r] have "providerFromModel rt (Some r) \<noteq> ''''" by auto
    ultimately have "providerFromModel rt (Some r) \<in>
        (\<lambda>m. providerFromModel rt (Some m)) ` set ?N \<and> providerFromModel rt (Some r) \<noteq> ''''"
      by (metis imageI)
    then show "\<not> providerFromModel rt (Some r) \<notin> ?fb" by simp
  qed
  moreover have "toUniqueStrings ?N = ?N"
    by (simp add: merged_def Let_def)
  ultimately show ?thesis
    by (simp add: merged_def [of rt av P ?N] filtered_merged Let_def)
qed

section \<open>Facts about the primary model and the fallbacks\<close>

lemma get_select_primary_other:
  "k \<noteq> ''primary'' \<Longrightarrow> get k (select_primary rt av m) = get k m"
  by (simp add: select_primary_def Let_def split: option.splits)

lemma existing_fallbacks_select_primary [simp]:
  "existing_fallbacks (select_primary rt av m) = existing_fallbacks m"
  by (simp add: existing_fallbacks_def get_select_primary_other)

lemma select_primary_keeps:
  assumes "providerFromModel rt (get ''primary'' m) \<in> set av" and "'''' \<notin> set av"
  shows "select_primary rt av m = m"
proof -
  from assms have "providerFromModel rt (get ''primary'' m) \<noteq> ''''" by auto
  then have "trim rt (get ''primary'' m) \<noteq> ''''"
    by (rule providerFromModel_nonempty_trim)
  with assms(1) show ?thesis
    by (simp add: select_primary_def Let_def del: trim.simps)
qed

lemma get_select_fallbacks_other:
  "k \<noteq> ''fallbacks'' \<Longrightarrow> get k (select_fallbacks rt av m) = get k m"
  by (simp add: select_fallbacks_def Let_def)

lemma stringify_eq_JStr [simp]: "stringify rt x = JStr s \<longleftrightarrow> x = JStr s"
  by (cases x) auto



lemma get_model_defaults_rules:
  "get ''model'' (defaults_rules rt env sd d) =
     (if available env = [] then get ''model'' d
      else Some (JObj (select_fallbacks rt (available env)
                         (select_primary rt (available env) (child d ''model'')))))"
  by (simp add: defaults_rules_def agent_defaults_def get_defaults_rule_other
        model_result_def Let_def child_def)

lemma get_path_model_before:
  "get_path (''agents'' # ''defaults'' # ''model'' # k # ks) (JObj c) =
     get_path (k # ks) (JObj (child (child (child c ''agents'') ''defaults'') ''model''))"
  by (simp add: child_def split: option.splits json.splits)

lemma get_path_model_after:
  "available env \<noteq> [] \<Longrightarrow>
   get_path (''agents'' # ''defaults'' # ''model'' # ks) (JObj (sync_result rt env sd c)) =
     get_path ks (JObj (select_fallbacks rt (available env)
        (select_primary rt (available env)
           (child (child (child c ''agents'') ''defaults'') ''model''))))"
  by (simp add: get_agents_sync_result get_model_defaults_rules)

section \<open>Facts about a run\<close>

lemma writes_main: "writes (main rt env fs) = fst (try_block rt env fs)"
  by (simp add: main_def split: prod.splits option.splits)

lemma caught_main: "caught (main rt env fs) = snd (try_block rt env fs)"
  by (simp add: main_def split: prod.splits option.splits)


lemma fst_load_and_sync:
  "fst (load_and_sync rt env fs done present) =
     (case reconcile rt env (stateDir_of env) (readConfig present) of
        Inl err \<Rightarrow> done
      | Inr updated \<Rightarrow>
          if stringify rt updated \<noteq> stringify rt (readConfig present)
          then done @ [(configPath_of env, stringify rt updated)] else done)"
  by (simp add: load_and_sync_def write_back_def Let_def split: sum.splits)

lemma snd_load_and_sync:
  "snd (load_and_sync rt env fs done present) =
     (case reconcile rt env (stateDir_of env) (readConfig present) of
        Inl err \<Rightarrow> Some err
      | Inr updated \<Rightarrow>
          if stringify rt updated \<noteq> stringify rt (readConfig present) \<and>
             \<not> can_write fs (length done) (configPath_of env)
          then Some IOError else None)"
  by (simp add: load_and_sync_def write_back_def Let_def split: sum.splits)



section \<open>Mutations inside an object\<close>

lemma put_if_differs [simp]: "(if get k d \<noteq> Some v then put k v d else d) = put k v d"
  by (simp add: put_same)

lemma put_commute:
  "k \<noteq> k' \<Longrightarrow> get k d \<noteq> None \<Longrightarrow> put k v (put k' v' d) = put k' v' (put k v d)"
  by (induction d) auto

lemma get_in_object_same [simp]: "get k (in_object k f d) = Some (JObj (f (child d k)))"
  by (simp add: in_object_def)

lemma get_in_object_other [simp]: "k' \<noteq> k \<Longrightarrow> get k' (in_object k f d) = get k' d"
  by (simp add: in_object_def)

lemma child_in_object_same [simp]: "child (in_object k f d) k = f (child d k)"
  by (simp add: child_def)

lemma child_in_object_other [simp]: "k' \<noteq> k \<Longrightarrow> child (in_object k f d) k' = child d k'"
  by (simp add: child_def)

lemma ensureObject_then_put:
  "put k (JObj (f (child (ensureObject d k) k))) (ensureObject d k) = in_object k f d"
  by (simp add: in_object_def)

lemma in_object_fixed_iff:
  "in_object k f d = d \<longleftrightarrow> (\<exists>kvs. get k d = Some (JObj kvs) \<and> f kvs = kvs)"
proof
  assume fixed: "in_object k f d = d"
  then have "get k (in_object k f d) = get k d" by simp
  then have g: "get k d = Some (JObj (f (child d k)))" by simp
  define kvs where "kvs = f (child d k)"
  with g have gx: "get k d = Some (JObj kvs)" by simp
  then have "child d k = kvs" by (simp add: child_def)
  with kvs_def have "f kvs = kvs" by simp
  with gx show "\<exists>kvs. get k d = Some (JObj kvs) \<and> f kvs = kvs" by auto
next
  assume "\<exists>kvs. get k d = Some (JObj kvs) \<and> f kvs = kvs"
  then obtain kvs where "get k d = Some (JObj kvs)" "f kvs = kvs" by auto
  then show "in_object k f d = d"
    by (simp add: in_object_def child_def put_same)
qed

lemma in_object_fixedI:
  "get k d = Some (JObj kvs) \<Longrightarrow> f kvs = kvs \<Longrightarrow> in_object k f d = d"
  by (auto simp: in_object_fixed_iff)

lemma put_fixedI: "get k d = Some v \<Longrightarrow> put k v d = d"
  by (rule put_same)

section \<open>The rules as mutations inside objects\<close>

lemma workspace_rule_eq:
  "workspace_rule env sd d =
     put ''workspace''
       (JStr (or_else (trim_env env ''OPENCLAW_WORKSPACE_DIR'') (sd @ ''/workspace''))) d"
  by (simp add: workspace_rule_def Let_def)

lemma model_result_eq:
  "model_result rt av d =
     (if av = [] then d
      else in_object ''model'' (\<lambda>m. select_fallbacks rt av (select_primary rt av m)) d)"
  by (simp add: model_result_def Let_def in_object_def)

lemma thinking_rule_eq:
  "thinking_rule env d =
     (if trim_env env ''OPENCLAW_THINKING_DEFAULT'' = '''' then d
      else put ''thinkingDefault'' (JStr (trim_env env ''OPENCLAW_THINKING_DEFAULT'')) d)"
  by (simp add: thinking_rule_def Let_def put_same)

lemma pruning_rule_eq:
  "pruning_rule env d =
     (if trim_env env ''OPENCLAW_CONTEXT_PRUNING_MODE'' = '''' then d
      else in_object ''contextPruning''
             (\<lambda>pruning.
                let pruning1 = put ''mode'' (JStr (trim_env env ''OPENCLAW_CONTEXT_PRUNING_MODE''))
                                 pruning
                in if trim_env env ''OPENCLAW_CONTEXT_PRUNING_TTL'' = '''' then pruning1
                   else put ''ttl'' (JStr (trim_env env ''OPENCLAW_CONTEXT_PRUNING_TTL'')) pruning1)
             d)"
  by (simp add: pruning_rule_def Let_def in_object_def put_same)

lemma compaction_rule_eq:
  "compaction_rule env d =
     (if trim_env env ''OPENCLAW_COMPACTION_MODE'' = '''' then d
      else in_object ''compaction''
             (put ''mode'' (JStr (trim_env env ''OPENCLAW_COMPACTION_MODE''))) d)"
  by (simp add: compaction_rule_def Let_def in_object_def)

lemma heartbeat_rule_eq:
  "heartbeat_rule env d =
     (if trim_env env ''OPENCLAW_HEARTBEAT_EVERY'' = '''' then d
      else in_object ''heartbeat''
             (put ''every'' (JStr (trim_env env ''OPENCLAW_HEARTBEAT_EVERY''))) d)"
  by (simp add: heartbeat_rule_def Let_def in_object_def)

lemma gateway_rule_eq:
  "gateway_rule env c =
     (if trim_env env ''OPENCLAW_GATEWAY_TOKEN'' = '''' then c
      else in_object ''gateway''
             (in_object ''auth''
                (\<lambda>gwAuth. put ''token'' (JStr (trim_env env ''OPENCLAW_GATEWAY_TOKEN''))
                            (put ''mode'' (JStr ''token'') gwAuth)))
             c)"
  by (auto simp: gateway_rule_def Let_def in_object_def put_same)

lemma set_enabled_eq: "set_enabled target = put ''enabled'' (JBool True) target"
  by (simp add: set_enabled_def)

lemma enable_channel_eq:
  "enable_channel name c =
     in_object ''plugins'' (in_object ''entries'' (in_object name set_enabled))
       (in_object ''channels'' (in_object name set_enabled) c)"
  by (simp add: enable_channel_def Let_def in_object_def)

text \<open>
  The pass as a sequence of rules on the root object: the agent defaults, the auth
  profiles, the gateway, Telegram, Discord.
\<close>

lemma sync_result_eq:
  "sync_result rt env sd c =
     discord_rule env
       (telegram_rule env
          (gateway_rule env
             (in_object ''auth'' (in_object ''profiles'' (\<lambda>p. profiles (auth_profiles env p)))
                (in_object ''agents'' (in_object ''defaults'' (defaults_rules rt env sd)) c))))"
proof -
  let ?agents = "JObj (put ''defaults''
      (JObj (defaults_rules rt env sd (child (child c ''agents'') ''defaults'')))
      (child c ''agents''))"
  let ?auth = "JObj (put ''profiles''
      (JObj (profiles (auth_profiles env (child (child c ''auth'') ''profiles''))))
      (child c ''auth''))"
  have "put ''agents'' ?agents (ensureObject (ensureObject c ''agents'') ''auth'') =
      ensureObject (put ''agents'' ?agents c) ''auth''"
    by (auto simp: ensureObject_def [of _ "''auth''"] put_commute split: option.splits json.splits)
  then have "put ''auth'' ?auth
      (put ''agents'' ?agents (ensureObject (ensureObject c ''agents'') ''auth'')) =
      put ''auth'' ?auth (put ''agents'' ?agents c)"
    by simp
  then show ?thesis
    by (simp add: sync_result_def Let_def defaults_rules_def in_object_def
          availableProviders_auth_profiles)
qed

section \<open>A second pass changes nothing\<close>

lemma in_object_fixed_eq:
  "in_object k f d = d \<longleftrightarrow> is_object (get k d) \<and> f (child d k) = child d k"
proof -
  have "(\<exists>kvs. get k d = Some (JObj kvs) \<and> f kvs = kvs) \<longleftrightarrow>
      is_object (get k d) \<and> f (child d k) = child d k"
    by (cases "get k d" rule: is_object.cases) (auto simp: child_def)
  then show ?thesis by (simp add: in_object_fixed_iff)
qed

lemma in_object_settled:
  assumes "f (f (child x k)) = f (child x k)" and "get k e = get k (in_object k f x)"
  shows "in_object k f e = e"
  using assms by (simp add: in_object_fixed_eq child_def)

lemma in_object_idem:
  "f (f (child x k)) = f (child x k) \<Longrightarrow> in_object k f (in_object k f x) = in_object k f x"
  by (rule in_object_settled) simp_all

subsection \<open>The profiles\<close>

lemma profiles_auth_step:
  "profiles (auth_step env pc st) =
     (if trim_env env (envVar pc) = [] \<or> envVar pc \<in> set (seenEnvVars st)
      then profiles st else ensure_profile pc (profiles st))"
  by (simp add: auth_step_def ensure_profile_def)

lemma profiles_auth_profiles:
  "profiles (auth_profiles env p) =
     (if trim_env env ''GOOGLE_API_KEY'' = '''' then id else ensure_profile (PROVIDERS ! 3))
       ((if trim_env env ''OPENAI_API_KEY'' = '''' then id else ensure_profile (PROVIDERS ! 1))
          ((if trim_env env ''ANTHROPIC_API_KEY'' = '''' then id
            else ensure_profile (PROVIDERS ! 0)) p))"
  by (simp add: auth_profiles_def PROVIDERS_def profiles_auth_step
        availableProviders_auth_step seenEnvVars_auth_step)

lemma get_ensure_profile_other:
  "k \<noteq> profileKey pc \<Longrightarrow> get k (ensure_profile pc p) = get k p"
  by (simp add: ensure_profile_def)

lemma ensure_profile_done:
  "\<not> profile_differs (get (profileKey pc) (ensure_profile pc p)) pc"
  by (simp add: ensure_profile_def profile_differs_def)

lemma ensure_profile_settled:
  "get (profileKey pc) e = get (profileKey pc) (ensure_profile pc p) \<Longrightarrow> ensure_profile pc e = e"
  using ensure_profile_done [of pc p] by (simp add: ensure_profile_def [of pc e])

lemma profiles_auth_profiles_idem:
  "profiles (auth_profiles env (profiles (auth_profiles env p))) = profiles (auth_profiles env p)"
proof -
  let ?a = "PROVIDERS ! 0" and ?c = "PROVIDERS ! 1" and ?g = "PROVIDERS ! 3"
  let ?e = "profiles (auth_profiles env p)"
  have keys: "profileKey ?a = ''anthropic:default''" "profileKey ?c = ''openai-codex:default''"
    "profileKey ?g = ''google:default''"
    "profileKey (PROVIDERS ! Suc 0) = ''openai-codex:default''"
    by (simp_all add: PROVIDERS_def)
  have a: "ensure_profile ?a ?e = ?e" if "trim_env env ''ANTHROPIC_API_KEY'' \<noteq> ''''"
    by (rule ensure_profile_settled [where p = p])
       (simp add: that profiles_auth_profiles get_ensure_profile_other keys)
  have c: "ensure_profile ?c ?e = ?e" if "trim_env env ''OPENAI_API_KEY'' \<noteq> ''''"
    by (rule ensure_profile_settled
          [where p = "(if trim_env env ''ANTHROPIC_API_KEY'' = '''' then id
                       else ensure_profile ?a) p"])
       (simp add: that profiles_auth_profiles get_ensure_profile_other keys)
  have g: "ensure_profile ?g ?e = ?e" if "trim_env env ''GOOGLE_API_KEY'' \<noteq> ''''"
    by (rule ensure_profile_settled
          [where p = "(if trim_env env ''OPENAI_API_KEY'' = '''' then id else ensure_profile ?c)
                        ((if trim_env env ''ANTHROPIC_API_KEY'' = '''' then id
                          else ensure_profile ?a) p)"])
       (simp add: that profiles_auth_profiles keys)
  show ?thesis
    unfolding profiles_auth_profiles [of env ?e] using a c g by simp
qed

subsection \<open>The model selection\<close>

lemma select_primary_settled:
  assumes "get ''primary'' e = get ''primary'' (select_primary rt av m)"
  shows "select_primary rt av e = e"
proof (cases "trim rt (get ''primary'' m) = '''' \<or>
              providerFromModel rt (get ''primary'' m) \<notin> set av")
  case False
  with assms show ?thesis
    by (simp add: select_primary_def Let_def del: trim.simps)
next
  case True
  show ?thesis
  proof (cases "PROVIDERS_BY_NAME (hd av)")
    case None
    with True assms show ?thesis
      by (simp add: select_primary_def Let_def del: trim.simps)
  next
    case (Some preferred)
    with True assms have "get ''primary'' e = Some (JStr (primaryModel preferred))"
      by (auto simp: select_primary_def Let_def put_same simp del: trim.simps)
    with Some show ?thesis
      by (simp add: select_primary_def Let_def del: trim.simps)
  qed
qed

lemma select_fallbacks_idem:
  "select_fallbacks rt av (select_fallbacks rt av m) = select_fallbacks rt av m"
proof (cases "stringify rt (JArr (existing_fallbacks m)) \<noteq>
              stringify rt (JArr (merged rt av (get ''primary'' m) (existing_fallbacks m)))")
  case False
  then show ?thesis by (simp add: select_fallbacks_def Let_def)
next
  case True
  let ?new = "merged rt av (get ''primary'' m) (existing_fallbacks m)"
  from True have first: "select_fallbacks rt av m = put ''fallbacks'' (JArr ?new) m"
    by (simp add: select_fallbacks_def Let_def)
  have "existing_fallbacks (put ''fallbacks'' (JArr ?new) m) = ?new"
    by (simp add: existing_fallbacks_def)
  then show ?thesis
    unfolding first
    by (simp add: select_fallbacks_def [of rt av "put ''fallbacks'' (JArr ?new) m"]
          Let_def merged_idem)
qed

lemma model_step_idem:
  "select_fallbacks rt av (select_primary rt av
     (select_fallbacks rt av (select_primary rt av m))) =
   select_fallbacks rt av (select_primary rt av m)"
proof -
  have "select_primary rt av (select_fallbacks rt av (select_primary rt av m)) =
      select_fallbacks rt av (select_primary rt av m)"
    by (rule select_primary_settled [where m = m]) (simp add: get_select_fallbacks_other)
  then show ?thesis by (simp add: select_fallbacks_idem)
qed

subsection \<open>The rules on the agent defaults\<close>

lemma max_concurrent_rule_settled:
  assumes "get ''maxConcurrent'' e = get ''maxConcurrent'' (max_concurrent_rule rt env d)"
  shows "max_concurrent_rule rt env e = e"
  using assms
  by (auto simp: max_concurrent_rule_def Let_def put_same split: if_splits)

lemma pruning_inner_idem:
  "(let pruning1 = put ''mode'' (JStr m) (let p1 = put ''mode'' (JStr m) x
                                         in if t = '''' then p1 else put ''ttl'' (JStr t) p1)
    in if t = '''' then pruning1 else put ''ttl'' (JStr t) pruning1) =
   (let p1 = put ''mode'' (JStr m) x in if t = '''' then p1 else put ''ttl'' (JStr t) p1)"
  by (simp add: Let_def put_same)

lemma defaults_rules_idem:
  "defaults_rules rt env sd (defaults_rules rt env sd d) = defaults_rules rt env sd d"
proof -
  let ?e = "defaults_rules rt env sd d"
  let ?d1 = "workspace_rule env sd d"
  let ?d2 = "model_result rt (available env) ?d1"
  let ?d3 = "thinking_rule env ?d2"
  let ?d4 = "max_concurrent_rule rt env ?d3"
  let ?d5 = "pruning_rule env ?d4"
  let ?d6 = "compaction_rule env ?d5"
  have e: "?e = heartbeat_rule env ?d6"
    by (simp add: defaults_rules_def agent_defaults_def)
  have s1: "workspace_rule env sd ?e = ?e"
    unfolding workspace_rule_eq [of env sd ?e]
    by (rule put_same) (simp add: e get_defaults_rule_other workspace_rule_eq)
  have s2: "model_result rt (available env) ?e = ?e"
  proof (cases "available env = []")
    case True
    then show ?thesis by (simp add: model_result_eq)
  next
    case False
    have "get ''model'' ?e = get ''model'' ?d2"
      by (simp add: e get_defaults_rule_other)
    with False show ?thesis
      by (simp add: model_result_eq [of rt _ ?e] model_result_eq [of rt _ ?d1]
            in_object_fixed_eq child_def model_step_idem)
  qed
  have s3: "thinking_rule env ?e = ?e"
  proof (cases "trim_env env ''OPENCLAW_THINKING_DEFAULT'' = ''''")
    case True
    then show ?thesis by (simp add: thinking_rule_eq)
  next
    case False
    have "get ''thinkingDefault'' ?e = get ''thinkingDefault'' ?d3"
      by (simp add: e get_defaults_rule_other)
    with False show ?thesis
      by (simp add: thinking_rule_eq [of env ?e] thinking_rule_eq [of env ?d2] put_same)
  qed
  have s4: "max_concurrent_rule rt env ?e = ?e"
    by (rule max_concurrent_rule_settled [where d = ?d3])
       (simp add: e get_defaults_rule_other)
  have s5: "pruning_rule env ?e = ?e"
  proof (cases "trim_env env ''OPENCLAW_CONTEXT_PRUNING_MODE'' = ''''")
    case True
    then show ?thesis by (simp add: pruning_rule_eq)
  next
    case False
    have "get ''contextPruning'' ?e = get ''contextPruning'' ?d5"
      by (simp add: e get_defaults_rule_other)
    with False show ?thesis
      by (simp add: pruning_rule_eq [of env ?e] pruning_rule_eq [of env ?d4]
            in_object_fixed_eq child_def pruning_inner_idem)
  qed
  have s6: "compaction_rule env ?e = ?e"
  proof (cases "trim_env env ''OPENCLAW_COMPACTION_MODE'' = ''''")
    case True
    then show ?thesis by (simp add: compaction_rule_eq)
  next
    case False
    have "get ''compaction'' ?e = get ''compaction'' ?d6"
      by (simp add: e get_defaults_rule_other)
    with False show ?thesis
      by (simp add: compaction_rule_eq [of env ?e] compaction_rule_eq [of env ?d5]
            in_object_fixed_eq child_def)
  qed
  have s7: "heartbeat_rule env ?e = ?e"
  proof (cases "trim_env env ''OPENCLAW_HEARTBEAT_EVERY'' = ''''")
    case True
    then show ?thesis by (simp add: heartbeat_rule_eq)
  next
    case False
    then show ?thesis
      by (simp add: e heartbeat_rule_eq [of env ?d6]
            heartbeat_rule_eq [of env "in_object _ _ _"] in_object_idem)
  qed
  have "defaults_rules rt env sd ?e =
      heartbeat_rule env (compaction_rule env (pruning_rule env (max_concurrent_rule rt env
        (thinking_rule env (model_result rt (available env) (workspace_rule env sd ?e))))))"
    by (simp add: defaults_rules_def agent_defaults_def)
  then show ?thesis
    by (simp only: s1 s2 s3 s4 s5 s6 s7)
qed

subsection \<open>The rules on the root object\<close>

lemma gateway_inner_idem:
  "put ''token'' (JStr t) (put ''mode'' (JStr ''token'')
     (put ''token'' (JStr t) (put ''mode'' (JStr ''token'') x))) =
   put ''token'' (JStr t) (put ''mode'' (JStr ''token'') x)"
  by (simp add: put_same)

lemma set_enabled_idem [simp]: "set_enabled (set_enabled x) = set_enabled x"
  by (simp add: set_enabled_eq)

lemma enable_channel_settled:
  assumes "in_object ''channels'' (in_object name set_enabled) e = e"
    and "in_object ''plugins'' (in_object ''entries'' (in_object name set_enabled)) e = e"
  shows "enable_channel name e = e"
  by (simp only: enable_channel_eq assms)

lemma get_channels_enable_channel:
  "get ''channels'' (enable_channel name c) =
     Some (JObj (in_object name set_enabled (child c ''channels'')))"
  by (simp add: enable_channel_eq)

lemma get_plugins_enable_channel:
  "get ''plugins'' (enable_channel name c) =
     Some (JObj (in_object ''entries'' (in_object name set_enabled) (child c ''plugins'')))"
  by (simp add: enable_channel_eq)

lemma enable_channel_idem: "enable_channel name (enable_channel name c) = enable_channel name c"
  by (rule enable_channel_settled)
     (simp_all add: in_object_fixed_eq child_def get_channels_enable_channel
        get_plugins_enable_channel)

lemma enable_channel_keeps:
  assumes "name \<noteq> other"
  shows "enable_channel name (enable_channel other (enable_channel name c)) =
         enable_channel other (enable_channel name c)"
  using assms
  by (intro enable_channel_settled)
     (simp_all add: in_object_fixed_eq child_def get_channels_enable_channel
        get_plugins_enable_channel)

lemma channel_rules_settled:
  "telegram_rule env (discord_rule env (telegram_rule env c)) =
     discord_rule env (telegram_rule env c)"
  "discord_rule env (discord_rule env (telegram_rule env c)) =
     discord_rule env (telegram_rule env c)"
  by (simp_all add: telegram_rule_def discord_rule_def Let_def enable_channel_idem
        enable_channel_keeps)

lemma sync_result_idem:
  "sync_result rt env sd (sync_result rt env sd c) = sync_result rt env sd c"
proof -
  let ?agents = "in_object ''agents'' (in_object ''defaults'' (defaults_rules rt env sd))"
  let ?auth = "in_object ''auth'' (in_object ''profiles'' (\<lambda>p. profiles (auth_profiles env p)))"
  let ?c2 = "?auth (?agents c)"
  let ?c3 = "gateway_rule env ?c2"
  let ?e = "sync_result rt env sd c"
  have e: "?e = discord_rule env (telegram_rule env ?c3)"
    by (simp only: sync_result_eq)
  have s1: "?agents ?e = ?e"
    by (rule in_object_settled [where x = c])
       (simp_all add: e get_root_rule_other in_object_idem defaults_rules_idem)
  have s2: "?auth ?e = ?e"
    by (rule in_object_settled [where x = "?agents c"])
       (simp_all add: e get_root_rule_other in_object_idem profiles_auth_profiles_idem)
  have s3: "gateway_rule env ?e = ?e"
  proof (cases "trim_env env ''OPENCLAW_GATEWAY_TOKEN'' = ''''")
    case True
    then show ?thesis by (simp add: gateway_rule_eq)
  next
    case False
    have "get ''gateway'' ?e = get ''gateway'' ?c3"
      by (simp add: e get_root_rule_other)
    with False show ?thesis
      by (simp add: gateway_rule_eq [of env ?e] gateway_rule_eq [of env ?c2]
            in_object_fixed_eq child_def put_same)
  qed
  have s4: "telegram_rule env ?e = ?e" and s5: "discord_rule env ?e = ?e"
    by (simp_all only: e channel_rules_settled)
  have "sync_result rt env sd ?e =
      discord_rule env (telegram_rule env (gateway_rule env (?auth (?agents ?e))))"
    by (simp only: sync_result_eq [of rt env sd ?e])
  then show ?thesis
    by (simp only: s1 s2 s3 s4 s5)
qed

section \<open>When the pass throws\<close>

lemma get_primary_select_primary:
  "get ''primary'' (select_primary rt av m) = get ''primary'' m \<or>
   (\<exists>s. get ''primary'' (select_primary rt av m) = Some (JStr s))"
  by (simp add: select_primary_def Let_def split: option.splits del: trim.simps)

lemma trim_throws_select_primary:
  assumes "\<not> trim_throws (get ''primary'' m)"
  shows "\<not> trim_throws (get ''primary'' (select_primary rt av m))"
  using get_primary_select_primary [of rt av m] assms by auto

lemma existing_fallbacks_select_fallbacks:
  "existing_fallbacks (select_fallbacks rt av m) = existing_fallbacks m \<or>
   existing_fallbacks (select_fallbacks rt av m) =
     merged rt av (get ''primary'' m) (existing_fallbacks m)"
  by (simp add: select_fallbacks_def Let_def existing_fallbacks_def)

lemma merged_never_throws:
  "\<not> list_ex (\<lambda>m. trim_throws (Some m)) (merged rt av p xs)"
proof -
  have "\<not> trim_throws (Some f)" if "f \<in> set (merged rt av p xs)" for f
  proof -
    from merged_elem [OF that] obtain s where "f = JStr s" by auto
    then show ?thesis by simp
  qed
  then show ?thesis by (auto simp: list_ex_iff)
qed

lemma model_selection_cases:
  "model_selection rt av d =
     (if av \<noteq> [] \<and>
         (trim_throws (get ''primary'' (child d ''model'')) \<or>
          list_ex (\<lambda>m. trim_throws (Some m)) (existing_fallbacks (child d ''model'')))
      then Inl TypeError else Inr (model_result rt av d))"
  using trim_throws_select_primary [of "child d ''model''" rt av]
  by (auto simp: model_selection_def model_result_def Let_def)

text \<open>
  The pass throws exactly under the condition \<^const>\<open>rules_throw\<close>, and returns
  \<^const>\<open>sync_result\<close> otherwise.
\<close>

lemma sync_rules_cases:
  "sync_rules rt env sd c =
     (if rules_throw env c then Inl TypeError else Inr (sync_result rt env sd c))"
proof -
  have model: "child (workspace_rule env sd d) ''model'' = child d ''model''" for d :: "'a obj"
    by (simp add: child_def get_workspace_rule_other)
  show ?thesis
    by (simp add: sync_rules_def sync_result_def rules_throw_def Let_def
          model_selection_cases availableProviders_auth_profiles model)
qed

lemma reconcile_JObj:
  "reconcile rt env sd (JObj c) =
     (if rules_throw env c then Inl TypeError else Inr (JObj (sync_result rt env sd c)))"
  by (simp add: sync_rules_cases)

lemma reconcile_JObj_Inr:
  "reconcile rt env sd (JObj c) = Inr updated \<longleftrightarrow>
     \<not> rules_throw env c \<and> updated = JObj (sync_result rt env sd c)"
  unfolding reconcile_JObj by auto


text \<open>A pass that returns leaves a document on which the next pass does not throw.\<close>

lemma rules_throw_sync_result:
  assumes "\<not> rules_throw env c"
  shows "\<not> rules_throw env (sync_result rt env sd c)"
proof (cases "available env = []")
  case True
  then show ?thesis by (simp add: rules_throw_def)
next
  case False
  let ?m = "child (child (child c ''agents'') ''defaults'') ''model''"
  let ?m1 = "select_primary rt (available env) ?m"
  let ?m2 = "select_fallbacks rt (available env) ?m1"
  have after: "child (child (child (sync_result rt env sd c) ''agents'') ''defaults'') ''model'' = ?m2"
    using False by (simp add: child_def get_agents_sync_result get_model_defaults_rules)
  from assms False have ok: "\<not> trim_throws (get ''primary'' ?m)"
    "\<not> list_ex (\<lambda>m. trim_throws (Some m)) (existing_fallbacks ?m)"
    by (simp_all add: rules_throw_def Let_def)
  from ok(1) have "\<not> trim_throws (get ''primary'' ?m1)"
    by (rule trim_throws_select_primary)
  then have primary: "\<not> trim_throws (get ''primary'' ?m2)"
    by (simp add: get_select_fallbacks_other)
  from existing_fallbacks_select_fallbacks [of rt "available env" ?m1]
  have fallbacks: "\<not> list_ex (\<lambda>m. trim_throws (Some m)) (existing_fallbacks ?m2)"
  proof
    assume "existing_fallbacks ?m2 = existing_fallbacks ?m1"
    with ok(2) show ?thesis by simp
  next
    assume "existing_fallbacks ?m2 =
        merged rt (available env) (get ''primary'' ?m1) (existing_fallbacks ?m1)"
    then show ?thesis by (simp only: merged_never_throws not_False_eq_True)
  qed
  from primary fallbacks show ?thesis
    unfolding rules_throw_def Let_def after by simp
qed

lemma reconcile_idem:
  assumes "reconcile rt env sd config = Inr updated"
  shows "reconcile rt env sd updated = Inr updated"
proof (cases config)
  case (JObj c)
  with assms have "reconcile rt env sd (JObj c) = Inr updated" by simp
  then have ok: "\<not> rules_throw env c" and u: "updated = JObj (sync_result rt env sd c)"
    unfolding reconcile_JObj_Inr by simp_all
  from ok have "\<not> rules_throw env (sync_result rt env sd c)"
    by (rule rules_throw_sync_result)
  then show ?thesis
    unfolding u reconcile_JObj by (simp add: sync_result_idem)
next
  case (JArr xs)
  with assms show ?thesis by auto
qed (insert assms, simp_all)

section \<open>A primary set in the document, two credentials in the environment\<close>







section \<open>Providers that share a credential variable\<close>

text \<open>
  C2, as amended. \<^verbatim>\<open>OPENAI_API_KEY\<close> is the credential variable of two specifications,
  \<^verbatim>\<open>openai-codex\<close> and, after it, \<^verbatim>\<open>openai\<close>. For every environment in which
  the variable is not blank and every initial \<^verbatim>\<open>auth.profiles\<close>, the list of available
  providers computed by the loop contains \<^verbatim>\<open>openai-codex\<close> and does not contain
  \<^verbatim>\<open>openai\<close>: the \<^verbatim>\<open>seenEnvVars\<close> test skips the second specification.
\<close>

theorem shared_env_var_first_spec_only:
  assumes "trim_env env ''OPENAI_API_KEY'' \<noteq> ''''"
  shows "''openai-codex'' \<in> set (availableProviders (auth_profiles env p)) \<and>
         ''openai'' \<notin> set (availableProviders (auth_profiles env p))"
  using assms by (simp add: availableProviders_auth_profiles available_def)

theorem shared_env_var_first_spec_only_witness:
  "trim_env env_openai ''OPENAI_API_KEY'' = ''sk-openai'' \<and>
   ''openai-codex'' \<in> set (availableProviders (auth_profiles env_openai ([] :: unit obj))) \<and>
   ''openai'' \<notin> set (availableProviders (auth_profiles env_openai ([] :: unit obj)))"
proof -
  have set: "trim_env env_openai ''OPENAI_API_KEY'' = ''sk-openai''"
    by (simp add: env_openai_def str_trim_def is_space_def)
  then have "trim_env env_openai ''OPENAI_API_KEY'' \<noteq> ''''"
    by simp
  from shared_env_var_first_spec_only [OF this, of "[] :: unit obj"] set
  show ?thesis by simp
qed

text \<open>
  The claim as stated fails: with \<^verbatim>\<open>OPENAI_API_KEY\<close> set and nothing else, the
  available providers are \<^verbatim>\<open>openai-codex\<close> alone.
\<close>

theorem shared_env_var_both_counterexample:
  "env_openai ''OPENAI_API_KEY'' = Some ''sk-openai'' \<and>
   availableProviders (auth_profiles env_openai ([] :: unit obj)) = [''openai-codex''] \<and>
   \<not> (''openai-codex'' \<in> set (availableProviders (auth_profiles env_openai ([] :: unit obj))) \<and>
      ''openai'' \<in> set (availableProviders (auth_profiles env_openai ([] :: unit obj))))"
  by (simp add: availableProviders_auth_profiles available_def env_openai_def
        str_trim_def is_space_def)

section \<open>The primary's provider among the fallbacks\<close>





section \<open>Idempotence\<close>

text \<open>
  C4. For every document, environment and state directory: when a pass on the document
  yields a document, a second pass on that document, in the same environment, yields the
  same document again; and a run that finds that document in the config file makes no
  call of \<^verbatim>\<open>fs.writeFileSync\<close> and catches no error, that is, it reports no change.
  (A pass yields no document when the root of the document is \<^verbatim>\<open>null\<close>, a boolean,
  a number or a string, or when the model selection converts a value with a property
  \<^verbatim>\<open>toString\<close>; it then throws, and the run writes nothing.)
\<close>

theorem second_pass_changes_nothing:
  fixes rt :: "'n js_runtime"
  assumes "reconcile rt env sd config = Inr updated"
  shows "reconcile rt env sd updated = Inr updated \<and>
         (sd = stateDir_of env \<and> files fs (configPath_of env) = Holds updated \<longrightarrow>
            writes (main rt env fs) = [] \<and> caught (main rt env fs) = None)"
proof -
  from assms have again: "reconcile rt env sd updated = Inr updated"
    by (rule reconcile_idem)
  have "writes (main rt env fs) = [] \<and> caught (main rt env fs) = None"
    if "sd = stateDir_of env" and "files fs (configPath_of env) = Holds updated"
    using that again
    by (simp add: writes_main caught_main try_block_def Let_def fst_load_and_sync
          snd_load_and_sync)
  with again show ?thesis by simp
qed

theorem second_pass_changes_nothing_witness:
  "reconcile no_numbers env_anthropic ''/data'' (JObj []) = Inr (JObj doc_settled) \<and>
   reconcile no_numbers env_anthropic ''/data'' (JObj doc_settled) = Inr (JObj doc_settled) \<and>
   files fs_settled (configPath_of env_anthropic) = Holds (JObj doc_settled) \<and>
   writes (main no_numbers env_anthropic fs_settled) = [] \<and>
   caught (main no_numbers env_anthropic fs_settled) = None"
proof -
  have first: "reconcile no_numbers env_anthropic ''/data'' (JObj []) = Inr (JObj doc_settled)"
    by code_simp
  have dir: "''/data'' = stateDir_of env_anthropic"
    by (simp add: stateDir_of_def env_anthropic_def or_else_def)
  have held: "files fs_settled (configPath_of env_anthropic) = Holds (JObj doc_settled)"
    by (simp add: fs_settled_def)
  from second_pass_changes_nothing [OF first, of fs_settled] dir held first
  show ?thesis by simp
qed

section \<open>An explicit primary of an available provider\<close>

text \<open>
  C5. For every document whose \<^verbatim>\<open>agents.defaults.model.primary\<close> is a value \<open>p\<close>
  with a provider prefix among the available providers that the loop computes, a pass
  that returns leaves \<^verbatim>\<open>agents.defaults.model.primary\<close> equal to \<open>p\<close>, wherever
  that provider stands in the priority order. (A pass that throws changes nothing at
  all.)
\<close>

theorem primary_of_available_provider_kept:
  fixes rt :: "'n js_runtime" and profs :: "'n obj"
  assumes "get_path [''agents'', ''defaults'', ''model'', ''primary''] (JObj config) = Some p"
    and "providerFromModel rt (Some p) \<in> set (availableProviders (auth_profiles env profs))"
    and "reconcile rt env sd (JObj config) = Inr updated"
  shows "get_path [''agents'', ''defaults'', ''model'', ''primary''] updated = Some p"
proof -
  let ?m = "child (child (child config ''agents'') ''defaults'') ''model''"
  from assms(2) have av: "providerFromModel rt (Some p) \<in> set (available env)"
    by (simp add: availableProviders_auth_profiles)
  then have ne: "available env \<noteq> []" by auto
  from assms(3) have u: "updated = JObj (sync_result rt env sd config)"
    unfolding reconcile_JObj_Inr by simp
  from assms(1) have p: "get ''primary'' ?m = Some p"
    unfolding get_path_model_before by (simp split: option.splits)
  with av have "select_primary rt (available env) ?m = ?m"
    by (simp add: select_primary_keeps)
  with p show ?thesis
    unfolding u get_path_model_after [OF ne]
    by (simp add: get_select_fallbacks_other split: option.splits)
qed

theorem primary_of_available_provider_kept_witness:
  "get_path [''agents'', ''defaults'', ''model'', ''primary'']
     (JObj (doc_primary ''google/gemini-3-pro-preview'')) =
     Some (JStr ''google/gemini-3-pro-preview'') \<and>
   providerFromModel no_numbers (Some (JStr ''google/gemini-3-pro-preview'')) = ''google'' \<and>
   availableProviders (auth_profiles env_all ([] :: unit obj)) =
     [''anthropic'', ''openai-codex'', ''google''] \<and>
   get_path [''agents'', ''defaults'', ''model'', ''primary'']
     (projr (reconcile no_numbers env_all ''/data'' (JObj (doc_primary ''google/gemini-3-pro-preview'')))) =
     Some (JStr ''google/gemini-3-pro-preview'')"
proof -
  have doc: "get_path [''agents'', ''defaults'', ''model'', ''primary'']
      (JObj (doc_primary ''google/gemini-3-pro-preview'')) =
      Some (JStr ''google/gemini-3-pro-preview'')"
    by (simp add: doc_primary_def)
  have prov: "providerFromModel no_numbers (Some (JStr ''google/gemini-3-pro-preview'')) = ''google''"
    by (simp add: providerFromModel_JStr str_trim_def is_space_def)
  have avail: "availableProviders (auth_profiles env_all ([] :: unit obj)) =
      [''anthropic'', ''openai-codex'', ''google'']"
    by (simp add: availableProviders_auth_profiles available_def env_all_def
          str_trim_def is_space_def)
  have "providerFromModel no_numbers (Some (JStr ''google/gemini-3-pro-preview'')) \<in>
      set (availableProviders (auth_profiles env_all ([] :: unit obj)))"
    by (simp only: prov avail) simp
  moreover have "reconcile no_numbers env_all ''/data''
      (JObj (doc_primary ''google/gemini-3-pro-preview'')) =
      Inr (projr (reconcile no_numbers env_all ''/data''
        (JObj (doc_primary ''google/gemini-3-pro-preview''))))"
    by code_simp
  ultimately have "get_path [''agents'', ''defaults'', ''model'', ''primary'']
      (projr (reconcile no_numbers env_all ''/data''
        (JObj (doc_primary ''google/gemini-3-pro-preview'')))) =
      Some (JStr ''google/gemini-3-pro-preview'')"
    by (rule primary_of_available_provider_kept [OF doc])
  with doc prov avail show ?thesis by simp
qed

section \<open>The writes of a run\<close>




section \<open>The context pruning variables\<close>

lemma get_contextPruning_defaults_rules:
  "get ''contextPruning'' (defaults_rules rt env sd d) =
     get ''contextPruning''
       (pruning_rule env
          (max_concurrent_rule rt env
             (thinking_rule env
                (model_result rt (available env) (workspace_rule env sd d)))))"
  by (simp add: defaults_rules_def agent_defaults_def get_defaults_rule_other)

lemma get_contextPruning_pruning_rule:
  "get ''contextPruning'' (pruning_rule env d) =
     (if trim_env env ''OPENCLAW_CONTEXT_PRUNING_MODE'' = '''' then get ''contextPruning'' d
      else let pruning1 = put ''mode'' (JStr (trim_env env ''OPENCLAW_CONTEXT_PRUNING_MODE''))
                            (child d ''contextPruning'');
               ttl = trim_env env ''OPENCLAW_CONTEXT_PRUNING_TTL''
           in Some (JObj (if ttl = '''' then pruning1 else put ''ttl'' (JStr ttl) pruning1)))"
  by (auto simp: pruning_rule_def Let_def put_same)

lemma get_contextPruning_before_pruning_rule:
  "get ''contextPruning''
     (max_concurrent_rule rt env
        (thinking_rule env (model_result rt av (workspace_rule env sd d)))) =
   get ''contextPruning'' d"
  by (simp add: get_defaults_rule_other)

text \<open>
  C7, as amended. \<^verbatim>\<open>OPENCLAW_CONTEXT_PRUNING_TTL\<close> is read inside the block that
  \<^verbatim>\<open>OPENCLAW_CONTEXT_PRUNING_MODE\<close> guards. For every document with an object at its
  root and every environment in which the pass returns: when both variables are not
  blank, the pass sets
  \<^verbatim>\<open>agents.defaults.contextPruning.ttl\<close> to the trimmed value; when the mode variable
  is blank or absent, \<^verbatim>\<open>agents.defaults.contextPruning\<close> is what it was, whatever
  the ttl variable holds; and when the ttl variable is blank or absent, the field
  \<^verbatim>\<open>ttl\<close> is what it was.
\<close>

theorem pruning_ttl_needs_mode:
  fixes rt :: "'n js_runtime"
  assumes "reconcile rt env sd (JObj config) = Inr updated"
  shows
  "(trim_env env ''OPENCLAW_CONTEXT_PRUNING_MODE'' \<noteq> '''' \<and>
    trim_env env ''OPENCLAW_CONTEXT_PRUNING_TTL'' \<noteq> '''' \<longrightarrow>
      get_path [''agents'', ''defaults'', ''contextPruning'', ''ttl''] updated =
      Some (JStr (trim_env env ''OPENCLAW_CONTEXT_PRUNING_TTL''))) \<and>
   (trim_env env ''OPENCLAW_CONTEXT_PRUNING_MODE'' = '''' \<longrightarrow>
      get_path [''agents'', ''defaults'', ''contextPruning''] updated =
      get_path [''agents'', ''defaults'', ''contextPruning''] (JObj config)) \<and>
   (trim_env env ''OPENCLAW_CONTEXT_PRUNING_TTL'' = '''' \<longrightarrow>
      get_path [''agents'', ''defaults'', ''contextPruning'', ''ttl''] updated =
      get_path [''agents'', ''defaults'', ''contextPruning'', ''ttl''] (JObj config))"
proof -
  let ?d = "child (child config ''agents'') ''defaults''"
  from assms have u: "updated = JObj (sync_result rt env sd config)"
    unfolding reconcile_JObj_Inr by simp
  have after: "get ''contextPruning'' (defaults_rules rt env sd ?d) =
      (if trim_env env ''OPENCLAW_CONTEXT_PRUNING_MODE'' = '''' then get ''contextPruning'' ?d
       else let pruning1 = put ''mode'' (JStr (trim_env env ''OPENCLAW_CONTEXT_PRUNING_MODE''))
                             (child ?d ''contextPruning'');
                ttl = trim_env env ''OPENCLAW_CONTEXT_PRUNING_TTL''
            in Some (JObj (if ttl = '''' then pruning1 else put ''ttl'' (JStr ttl) pruning1)))"
    by (simp add: get_contextPruning_defaults_rules get_contextPruning_pruning_rule
          child_def get_defaults_rule_other)
  have inside: "(case get ''contextPruning'' ?d of None \<Rightarrow> None
                 | Some v \<Rightarrow> get_path [''ttl''] v) = get ''ttl'' (child ?d ''contextPruning'')"
    by (simp add: child_def split: option.splits json.splits)
  show ?thesis
    unfolding u get_path_defaults_sync_result get_path_defaults_before
    by (simp add: after inside Let_def split: option.splits)
qed

theorem pruning_ttl_needs_mode_witness:
  "get_path [''agents'', ''defaults'', ''contextPruning'', ''ttl'']
     (projr (reconcile no_numbers env_pruning_both ''/data'' (JObj doc_pruning))) = Some (JStr ''5m'') \<and>
   get_path [''agents'', ''defaults'', ''contextPruning'']
     (projr (reconcile no_numbers env_pruning_ttl ''/data'' (JObj doc_pruning))) =
     Some (JObj [(''mode'', JStr ''cache-ttl''), (''ttl'', JStr ''1h'')]) \<and>
   get_path [''agents'', ''defaults'', ''contextPruning'', ''ttl'']
     (projr (reconcile no_numbers Map.empty ''/data'' (JObj doc_pruning))) = Some (JStr ''1h'')"
proof -
  have both: "trim_env env_pruning_both ''OPENCLAW_CONTEXT_PRUNING_MODE'' \<noteq> '''' \<and>
      trim_env env_pruning_both ''OPENCLAW_CONTEXT_PRUNING_TTL'' = ''5m''"
    by (simp add: env_pruning_both_def str_trim_def is_space_def)
  have only: "trim_env env_pruning_ttl ''OPENCLAW_CONTEXT_PRUNING_MODE'' = ''''"
    by (simp add: env_pruning_ttl_def)
  have none: "trim_env Map.empty ''OPENCLAW_CONTEXT_PRUNING_TTL'' = ''''"
    by simp
  have doc: "get_path [''agents'', ''defaults'', ''contextPruning''] (JObj doc_pruning) =
      Some (JObj [(''mode'', JStr ''cache-ttl''), (''ttl'', JStr ''1h'')])"
    "get_path [''agents'', ''defaults'', ''contextPruning'', ''ttl''] (JObj doc_pruning) =
      Some (JStr ''1h'')"
    by (simp_all add: doc_pruning_def)
  have ret: "reconcile no_numbers env_pruning_both ''/data'' (JObj doc_pruning) =
      Inr (projr (reconcile no_numbers env_pruning_both ''/data'' (JObj doc_pruning)))"
    "reconcile no_numbers env_pruning_ttl ''/data'' (JObj doc_pruning) =
      Inr (projr (reconcile no_numbers env_pruning_ttl ''/data'' (JObj doc_pruning)))"
    "reconcile no_numbers Map.empty ''/data'' (JObj doc_pruning) =
      Inr (projr (reconcile no_numbers Map.empty ''/data'' (JObj doc_pruning)))"
    by code_simp+
  from pruning_ttl_needs_mode [OF ret(1)] pruning_ttl_needs_mode [OF ret(2)]
       pruning_ttl_needs_mode [OF ret(3)] both only none doc
  show ?thesis by simp
qed

text \<open>
  The claim as stated fails: with the ttl variable set to \<^verbatim>\<open>5m\<close>, the mode variable
  absent and \<^verbatim>\<open>contextPruning.ttl\<close> holding \<^verbatim>\<open>1h\<close>, the field still holds
  \<^verbatim>\<open>1h\<close> after the pass.
\<close>

theorem pruning_ttl_without_mode_counterexample:
  "trim_env env_pruning_ttl ''OPENCLAW_CONTEXT_PRUNING_TTL'' = ''5m'' \<and>
   trim_env env_pruning_ttl ''OPENCLAW_CONTEXT_PRUNING_MODE'' = '''' \<and>
   get_path [''agents'', ''defaults'', ''contextPruning'', ''ttl''] (JObj doc_pruning) =
     Some (JStr ''1h'') \<and>
   \<not> isl (reconcile no_numbers env_pruning_ttl ''/data'' (JObj doc_pruning)) \<and>
   get_path [''agents'', ''defaults'', ''contextPruning'', ''ttl'']
     (projr (reconcile no_numbers env_pruning_ttl ''/data'' (JObj doc_pruning))) =
     Some (JStr ''1h'')"
  by code_simp

section \<open>Errors of a run\<close>



section \<open>Values that are not objects on the paths of the pass\<close>






lemma is_object_get_path_Nil [simp]: "is_object (get_path [] (JObj kvs))"
  by simp




section \<open>The values of the credential variables\<close>







end
